theory Spec2Isabelle
  imports
    Complex_Main
    "HOL-Library.AList"
    "HOL-Library.Multiset"
    "HOL-Library.List_Lexorder"
    "HOL-Library.Product_Lexorder"
begin

section \<open>Values\<close>

text \<open>
  The server of \<^verbatim>\<open>index.js\<close> is a set of Express route handlers over two
  MongoDB collections. Each handler reads fields of the JSON body, the query
  string and the path, coerces them with the JavaScript built-ins
  (\<^verbatim>\<open>String\<close>, \<^verbatim>\<open>Number\<close>, \<^verbatim>\<open>isNaN\<close>, \<^verbatim>\<open>new Date\<close>, \<^verbatim>\<open>!x\<close>, \<^verbatim>\<open>x || y\<close>),
  performs store operations and answers with a status and a JSON body.

  A JavaScript number is a binary64 value. The model keeps the three special
  values apart and stands \<open>Fin q\<close> for the Number value of the rational \<open>q\<close>;
  the rounding of \<open>q\<close> to binary64 and the sign of zero are not represented.
  The handlers only ever ask whether a number is \<open>NaN\<close> or falsy.
\<close>

datatype jsnum = NaN | PInf | NInf | Fin rat

text \<open>
  The values a field of a parsed JSON body can hold, restricted to the
  primitives; \<open>JUndefined\<close> is what destructuring yields for an absent field.
  Fields sent as arrays or objects are outside the model. Strings are
  sequences of code units below 256.
\<close>

datatype jsval = JUndefined | JNull | JBool bool | JNum jsnum | JStr string

text \<open>
  The values of a stored document and of a response body before it is
  serialised: primitives, dates (milliseconds since the epoch), object
  identifiers (their 24 digit hexadecimal form) and embedded documents, which
  are association lists read at the first entry of a key. Arrays are outside
  the model: the only one a handler builds is the list that the listing of
  tasks answers with.
\<close>

datatype bson =
    Prim jsval
  | BDate int
  | ObjectId string
  | Doc "(string \<times> bson) list"

type_synonym fields = "(string \<times> bson) list"

text \<open>Property access \<^verbatim>\<open>o.k\<close> on an object: a missing property reads \<^verbatim>\<open>undefined\<close>.\<close>

definition get :: "fields \<Rightarrow> string \<Rightarrow> bson" where
  "get fs k = (case map_of fs k of None \<Rightarrow> Prim JUndefined | Some v \<Rightarrow> v)"

text \<open>
  Property access on any value, as in \<^verbatim>\<open>task.author?.email\<close>: with the
  optional chaining \<^verbatim>\<open>undefined\<close> and \<^verbatim>\<open>null\<close> give \<^verbatim>\<open>undefined\<close>, and so does a
  primitive, a date or an identifier, none of which has the property.
\<close>

definition get_opt :: "bson \<Rightarrow> string \<Rightarrow> bson" where
  "get_opt v k = (case v of Doc fs \<Rightarrow> get fs k | _ \<Rightarrow> Prim JUndefined)"

section \<open>JavaScript coercions\<close>

text \<open>Truthiness: \<^verbatim>\<open>!x\<close> is \<open>\<not> truthy x\<close>.\<close>

fun truthy :: "jsval \<Rightarrow> bool" where
  "truthy JUndefined = False"
| "truthy JNull = False"
| "truthy (JBool b) = b"
| "truthy (JNum NaN) = False"
| "truthy (JNum (Fin q)) = (q \<noteq> 0)"
| "truthy (JNum _) = True"
| "truthy (JStr s) = (s \<noteq> [])"

fun truthy_bson :: "bson \<Rightarrow> bool" where
  "truthy_bson (Prim v) = truthy v"
| "truthy_bson _ = True"

text \<open>\<^verbatim>\<open>x || y\<close>\<close>

definition js_or :: "jsval \<Rightarrow> jsval \<Rightarrow> jsval" where
  "js_or x y = (if truthy x then x else y)"

definition bson_or :: "bson \<Rightarrow> bson \<Rightarrow> bson" where
  "bson_or x y = (if truthy_bson x then x else y)"

text \<open>
  White space and line terminators of ECMAScript among the code units below
  256: TAB, LF, VT, FF, CR, SP and NBSP.
\<close>

definition is_ws :: "char \<Rightarrow> bool" where
  "is_ws c = ((of_char c :: nat) \<in> {9, 10, 11, 12, 13, 32, 160})"

text \<open>\<^verbatim>\<open>String.prototype.trim\<close>\<close>

definition trim :: "string \<Rightarrow> string" where
  "trim s = rev (dropWhile is_ws (rev (dropWhile is_ws s)))"

text \<open>
  \<^verbatim>\<open>String.prototype.toLowerCase\<close> on code units below 256: the letters A to Z
  and the capital letters of the Latin-1 supplement (U+00C0 to U+00DE without
  the multiplication sign U+00D7) move up by 32.
\<close>

definition lower_char :: "char \<Rightarrow> char" where
  "lower_char c =
     (let n = (of_char c :: nat)
      in if (65 \<le> n \<and> n \<le> 90) \<or> (192 \<le> n \<and> n \<le> 222 \<and> n \<noteq> 215)
         then char_of (n + 32) else c)"

definition toLowerCase :: "string \<Rightarrow> string" where
  "toLowerCase s = map lower_char s"

subsection \<open>Number\<close>

text \<open>
  \<^verbatim>\<open>Number(s)\<close> on a string follows the StringNumericLiteral grammar of
  ECMAScript: surrounding white space is dropped, the empty string is 0, a
  decimal literal has an optional sign, \<^verbatim>\<open>Infinity\<close> or digits with an optional
  fraction and exponent, and an unsigned literal with the prefix \<^verbatim>\<open>0x\<close>, \<^verbatim>\<open>0o\<close>
  or \<^verbatim>\<open>0b\<close> is read in that radix. Everything else is \<open>NaN\<close>.
\<close>

definition digit_of :: "nat \<Rightarrow> char \<Rightarrow> nat option" where
  "digit_of radix c =
     (let n = (of_char c :: nat);
          d = (if 48 \<le> n \<and> n \<le> 57 then Some (n - 48)
               else if 97 \<le> n \<and> n \<le> 102 then Some (n - 87)
               else if 65 \<le> n \<and> n \<le> 70 then Some (n - 55)
               else None)
      in case d of None \<Rightarrow> None | Some v \<Rightarrow> if v < radix then Some v else None)"

fun digits_value :: "nat \<Rightarrow> nat \<Rightarrow> string \<Rightarrow> nat option" where
  "digits_value radix acc [] = Some acc"
| "digits_value radix acc (c # cs) =
     (case digit_of radix c of
        None \<Rightarrow> None
      | Some d \<Rightarrow> digits_value radix (acc * radix + d) cs)"

text \<open>A non-empty run of digits.\<close>

definition numeral_value :: "nat \<Rightarrow> string \<Rightarrow> nat option" where
  "numeral_value radix s = (if s = [] then None else digits_value radix 0 s)"

text \<open>The exponent after \<^verbatim>\<open>e\<close>: an optional sign and a non-empty run of digits.\<close>

definition signed_integer :: "string \<Rightarrow> int option" where
  "signed_integer s =
     (if s \<noteq> [] \<and> hd s = CHR ''+'' then map_option int (numeral_value 10 (tl s))
      else if s \<noteq> [] \<and> hd s = CHR ''-'' then map_option (\<lambda>n. - int n) (numeral_value 10 (tl s))
      else map_option int (numeral_value 10 s))"

definition scale10 :: "rat \<Rightarrow> int \<Rightarrow> rat" where
  "scale10 m e = (if 0 \<le> e then m * 10 ^ nat e else m / 10 ^ nat (- e))"

text \<open>Digits with an optional fraction: \<^verbatim>\<open>12\<close>, \<^verbatim>\<open>12.\<close>, \<^verbatim>\<open>12.5\<close>, \<^verbatim>\<open>.5\<close>.\<close>

definition mantissa_value :: "string \<Rightarrow> rat option" where
  "mantissa_value m =
     (let ip = takeWhile (\<lambda>c. c \<noteq> CHR ''.'') m;
          rest = dropWhile (\<lambda>c. c \<noteq> CHR ''.'') m
      in if rest = [] then map_option of_nat (numeral_value 10 ip)
         else let fp = tl rest
              in if ip = [] \<and> fp = [] then None
                 else (case (digits_value 10 0 ip, digits_value 10 0 fp) of
                         (Some i, Some f) \<Rightarrow>
                           Some (of_nat i + of_nat f / 10 ^ length fp)
                       | _ \<Rightarrow> None))"

definition is_exp_char :: "char \<Rightarrow> bool" where
  "is_exp_char c = (c = CHR ''e'' \<or> c = CHR ''E'')"

definition unsigned_decimal :: "string \<Rightarrow> jsnum" where
  "unsigned_decimal u =
     (if u = ''Infinity'' then PInf
      else let m = takeWhile (\<lambda>c. \<not> is_exp_char c) u;
               rest = dropWhile (\<lambda>c. \<not> is_exp_char c) u
           in case mantissa_value m of
                None \<Rightarrow> NaN
              | Some q \<Rightarrow>
                  if rest = [] then Fin q
                  else (case signed_integer (tl rest) of
                          None \<Rightarrow> NaN
                        | Some e \<Rightarrow> Fin (scale10 q e)))"

definition negate :: "jsnum \<Rightarrow> jsnum" where
  "negate n = (case n of NaN \<Rightarrow> NaN | PInf \<Rightarrow> NInf | NInf \<Rightarrow> PInf | Fin q \<Rightarrow> Fin (- q))"

definition radix_of_prefix :: "string \<Rightarrow> nat option" where
  "radix_of_prefix p =
     (if p = ''0x'' \<or> p = ''0X'' then Some 16
      else if p = ''0o'' \<or> p = ''0O'' then Some 8
      else if p = ''0b'' \<or> p = ''0B'' then Some 2
      else None)"

definition StringToNumber :: "string \<Rightarrow> jsnum" where
  "StringToNumber s =
     (let t = trim s
      in if t = [] then Fin 0
         else case radix_of_prefix (take 2 t) of
                Some radix \<Rightarrow>
                  (case numeral_value radix (drop 2 t) of
                     None \<Rightarrow> NaN
                   | Some n \<Rightarrow> Fin (of_nat n))
              | None \<Rightarrow>
                  if hd t = CHR ''+'' then unsigned_decimal (tl t)
                  else if hd t = CHR ''-'' then negate (unsigned_decimal (tl t))
                  else unsigned_decimal t)"

text \<open>\<^verbatim>\<open>Number(x)\<close> on a primitive.\<close>

fun Number :: "jsval \<Rightarrow> jsnum" where
  "Number JUndefined = NaN"
| "Number JNull = Fin 0"
| "Number (JBool b) = Fin (if b then 1 else 0)"
| "Number (JNum n) = n"
| "Number (JStr s) = StringToNumber s"

definition isNaN :: "jsnum \<Rightarrow> bool" where
  "isNaN n = (n = NaN)"

subsection \<open>String, dates and identifiers\<close>

text \<open>
  Two built-ins are taken as parameters of the handlers that use them. The
  digits \<^verbatim>\<open>String\<close> prints for a finite number are those of the shortest
  decimal that reads back as the same binary64 value, which needs the
  floating-point value itself. \<^verbatim>\<open>Date.parse\<close> accepts the ISO forms and, beyond
  them, whatever the engine chooses to accept; \<open>None\<close> stands for its \<open>NaN\<close>.
\<close>

record platform =
  number_to_string :: "rat \<Rightarrow> string"
  date_parse :: "string \<Rightarrow> int option"

text \<open>\<^verbatim>\<open>String(x)\<close> on a primitive.\<close>

fun String :: "platform \<Rightarrow> jsval \<Rightarrow> string" where
  "String P JUndefined = ''undefined''"
| "String P JNull = ''null''"
| "String P (JBool b) = (if b then ''true'' else ''false'')"
| "String P (JNum NaN) = ''NaN''"
| "String P (JNum PInf) = ''Infinity''"
| "String P (JNum NInf) = ''-Infinity''"
| "String P (JNum (Fin q)) = number_to_string P q"
| "String P (JStr s) = s"

text \<open>
  \<^verbatim>\<open>TimeClip\<close>: a time value is an integral number of milliseconds of
  magnitude at most 8.64e15; anything else is an invalid date.
\<close>

definition TimeClip :: "jsnum \<Rightarrow> int option" where
  "TimeClip n =
     (case n of
        Fin q \<Rightarrow>
          if \<bar>q\<bar> > 8640000000000000 then None
          else Some (if 0 \<le> q then \<lfloor>q\<rfloor> else \<lceil>q\<rceil>)
      | _ \<Rightarrow> None)"

text \<open>
  \<^verbatim>\<open>new Date(x)\<close> on a primitive: a string is parsed, any other value is
  converted to a number and clipped. The result is the time value of the
  date, \<open>None\<close> when \<^verbatim>\<open>isNaN(d.getTime())\<close>.
\<close>

definition new_Date :: "platform \<Rightarrow> jsval \<Rightarrow> int option" where
  "new_Date P v = (case v of JStr s \<Rightarrow> date_parse P s | _ \<Rightarrow> TimeClip (Number v))"

text \<open>
  \<^verbatim>\<open>new ObjectId(s)\<close> of the driver on a string: the string must be 24
  hexadecimal digits, otherwise the constructor throws (\<open>None\<close>). The
  identifier is kept as the lower-case digits that its \<^verbatim>\<open>toString()\<close> returns.
\<close>

definition is_hex :: "char \<Rightarrow> bool" where
  "is_hex c = (digit_of 16 c \<noteq> None)"

definition new_ObjectId :: "string \<Rightarrow> string option" where
  "new_ObjectId s =
     (if length s = 24 \<and> list_all is_hex s then Some (toLowerCase s) else None)"

section \<open>The document store\<close>

text \<open>
  A stored document has the identifier \<^verbatim>\<open>_id\<close> that the store or the driver
  gave it, and its other fields. A collection is the list of its documents in
  insertion order.
\<close>

record document =
  oid :: string
  props :: fields

text \<open>The document as the driver hands it to the program.\<close>

definition to_object :: "document \<Rightarrow> fields" where
  "to_object d = (''_id'', ObjectId (oid d)) # props d"

text \<open>
  A failure of a store operation, as the rejection of its promise: a server
  error with its \<^verbatim>\<open>code\<close>, or a failure that carries no code (the connection
  is lost, the operation times out).
\<close>

datatype store_error = ServerError int | NetworkError

definition code :: "store_error \<Rightarrow> int option" where
  "code e = (case e of ServerError n \<Rightarrow> Some n | NetworkError \<Rightarrow> None)"

text \<open>
  Failures come from outside the program. The collection carries the outcomes
  of the operations to come: each operation takes the first one, fails with
  it when it is an error, and runs when it is \<open>None\<close> or when none is left.
  A failed operation changes no document. Requests are handled one at a
  time: the interleaving of the operations of two requests is not part of
  the model.
\<close>

record collection =
  docs :: "document list"
  pending :: "store_error option list"

definition next_outcome :: "collection \<Rightarrow> store_error option \<times> collection" where
  "next_outcome c =
     (case pending c of
        [] \<Rightarrow> (None, c)
      | f # fs \<Rightarrow> (f, c\<lparr>pending := fs\<rparr>))"

text \<open>
  A filter is a conjunction of equality conditions, each on a dotted path
  such as \<^verbatim>\<open>author.email\<close>. The values the handlers put in a filter are
  strings, numbers, booleans and identifiers, for which the store's match is
  equality with the value found at the path.
\<close>

type_synonym filter = "(string list \<times> bson) list"

fun lookup_path :: "bson \<Rightarrow> string list \<Rightarrow> bson" where
  "lookup_path v [] = v"
| "lookup_path v (k # ks) = lookup_path (get_opt v k) ks"

definition matches :: "filter \<Rightarrow> document \<Rightarrow> bool" where
  "matches q d = list_all (\<lambda>(p, v). lookup_path (Doc (to_object d)) p = v) q"

text \<open>\<^verbatim>\<open>collection.findOne(q)\<close>\<close>

definition findOne :: "filter \<Rightarrow> collection \<Rightarrow> (store_error + document option) \<times> collection" where
  "findOne q c =
     (case next_outcome c of
        (Some e, c') \<Rightarrow> (Inl e, c')
      | (None, c') \<Rightarrow> (Inr (find (matches q) (docs c')), c'))"

text \<open>
  \<^verbatim>\<open>collection.insertOne(doc)\<close>: the driver gives the document the identifier
  \<open>newid\<close> it generated, and the server refuses an identifier that is in use
  with the duplicate key error 11000. The result is \<^verbatim>\<open>insertedId\<close>.
\<close>

definition insertOne :: "string \<Rightarrow> fields \<Rightarrow> collection \<Rightarrow> (store_error + string) \<times> collection" where
  "insertOne newid fs c =
     (case next_outcome c of
        (Some e, c') \<Rightarrow> (Inl e, c')
      | (None, c') \<Rightarrow>
          if newid \<in> set (map oid (docs c')) then (Inl (ServerError 11000), c')
          else (Inr newid, c'\<lparr>docs := docs c' @ [\<lparr>oid = newid, props = fs\<rparr>]\<rparr>))"

text \<open>\<^verbatim>\<open>$set\<close>: each listed field is replaced where it stands, or added at the end.\<close>

definition set_fields :: "fields \<Rightarrow> fields \<Rightarrow> fields" where
  "set_fields upd fs = fold (\<lambda>(k, v). AList.update k v) upd fs"

fun update_first :: "('a \<Rightarrow> bool) \<Rightarrow> ('a \<Rightarrow> 'a) \<Rightarrow> 'a list \<Rightarrow> 'a list" where
  "update_first p f [] = []"
| "update_first p f (x # xs) = (if p x then f x # xs else x # update_first p f xs)"

record update_result =
  matchedCount :: nat
  upsertedCount :: nat

text \<open>
  \<^verbatim>\<open>collection.updateOne(q, {$set: s, $setOnInsert: i}, {upsert})\<close>. The first
  document that matches gets the fields of \<^verbatim>\<open>$set\<close>. With \<^verbatim>\<open>upsert\<close> and no
  match, a document is inserted under the identifier \<open>newid\<close> that the server
  generates: it holds the top-level fields that the filter asks for, then
  those of \<^verbatim>\<open>$set\<close> and \<^verbatim>\<open>$setOnInsert\<close>.
\<close>

definition updateOne ::
  "filter \<Rightarrow> fields \<Rightarrow> fields \<Rightarrow> bool \<Rightarrow> string \<Rightarrow> collection
     \<Rightarrow> (store_error + update_result) \<times> collection" where
  "updateOne q s i upsert newid c =
     (case next_outcome c of
        (Some e, c') \<Rightarrow> (Inl e, c')
      | (None, c') \<Rightarrow>
          if list_ex (matches q) (docs c') then
            (Inr \<lparr>matchedCount = 1, upsertedCount = 0\<rparr>,
             c'\<lparr>docs := update_first (matches q)
                            (\<lambda>d. d\<lparr>props := set_fields s (props d)\<rparr>) (docs c')\<rparr>)
          else if upsert then
            (Inr \<lparr>matchedCount = 0, upsertedCount = 1\<rparr>,
             c'\<lparr>docs := docs c' @
                [\<lparr>oid = newid,
                  props = set_fields i (set_fields s
                             (concat (map (\<lambda>(p, v). case p of [k] \<Rightarrow> [(k, v)] | _ \<Rightarrow> []) q)))\<rparr>]\<rparr>)
          else (Inr \<lparr>matchedCount = 0, upsertedCount = 0\<rparr>, c'))"

fun remove_first :: "('a \<Rightarrow> bool) \<Rightarrow> 'a list \<Rightarrow> 'a list" where
  "remove_first p [] = []"
| "remove_first p (x # xs) = (if p x then xs else x # remove_first p xs)"

text \<open>\<^verbatim>\<open>collection.deleteOne(q)\<close>; the result is \<^verbatim>\<open>deletedCount\<close>.\<close>

definition deleteOne :: "filter \<Rightarrow> collection \<Rightarrow> (store_error + nat) \<times> collection" where
  "deleteOne q c =
     (case next_outcome c of
        (Some e, c') \<Rightarrow> (Inl e, c')
      | (None, c') \<Rightarrow>
          if list_ex (matches q) (docs c')
          then (Inr 1, c'\<lparr>docs := remove_first (matches q) (docs c')\<rparr>)
          else (Inr 0, c'))"

text \<open>
  The order of the store on the values of a sort field: by type (null and
  missing, numbers, strings, embedded documents, identifiers, booleans,
  dates), then by value within a type. Embedded documents are left unordered
  among themselves.
\<close>

fun sort_rank :: "bson \<Rightarrow> nat \<times> nat \<times> rat \<times> nat list" where
  "sort_rank (Prim JUndefined) = (2, 0, 0, [])"
| "sort_rank (Prim JNull) = (2, 0, 0, [])"
| "sort_rank (Prim (JNum NaN)) = (3, 0, 0, [])"
| "sort_rank (Prim (JNum NInf)) = (3, 1, 0, [])"
| "sort_rank (Prim (JNum (Fin q))) = (3, 2, q, [])"
| "sort_rank (Prim (JNum PInf)) = (3, 3, 0, [])"
| "sort_rank (Prim (JStr s)) = (4, 0, 0, map of_char s)"
| "sort_rank (Doc fs) = (5, 0, 0, [])"
| "sort_rank (ObjectId h) = (8, 0, 0, map of_char h)"
| "sort_rank (Prim (JBool b)) = (9, 0, (if b then 1 else 0), [])"
| "sort_rank (BDate t) = (10, 0, of_int t, [])"

text \<open>
  \<^verbatim>\<open>collection.find(q).sort({[k]: -1}).limit(n).toArray()\<close>: the matching
  documents by descending value of the field \<open>k\<close>, cut after \<open>n\<close>. The store
  leaves the order of documents with equal values open; the model puts the
  later insertion first.
\<close>

definition find_sort_desc_limit ::
  "filter \<Rightarrow> string \<Rightarrow> nat \<Rightarrow> collection \<Rightarrow> (store_error + document list) \<times> collection" where
  "find_sort_desc_limit q k n c =
     (case next_outcome c of
        (Some e, c') \<Rightarrow> (Inl e, c')
      | (None, c') \<Rightarrow>
          (Inr (take n (rev (sort_key (\<lambda>d. sort_rank (get (props d) k))
                               (filter (matches q) (docs c'))))), c'))"

section \<open>The route handlers\<close>

text \<open>
  What a handler reads of the request: \<^verbatim>\<open>req.params\<close>, \<^verbatim>\<open>req.query\<close> (a
  parameter given once is a string, one not given is \<^verbatim>\<open>undefined\<close>; repeated
  and bracketed parameters are outside the model) and \<^verbatim>\<open>req.body || {}\<close>, in
  which a field that is not there reads \<open>JUndefined\<close>.
\<close>

record request =
  params :: "string \<Rightarrow> string"
  query :: "string \<Rightarrow> string option"
  body :: "string \<Rightarrow> jsval"

datatype json_reply = Object fields | Array "fields list"

record response =
  status :: nat
  json :: json_reply

definition reply :: "nat \<Rightarrow> fields \<Rightarrow> response" where
  "reply n b = \<lparr>status = n, json = Object b\<rparr>"

definition error :: "string \<Rightarrow> fields" where
  "error m = [(''error'', Prim (JStr m))]"

definition internal_server_error :: response where
  "internal_server_error = reply 500 (error ''Internal server error'')"

text \<open>A destructuring default, \<^verbatim>\<open>{ name = "" }\<close>: it replaces \<^verbatim>\<open>undefined\<close> only.\<close>

definition default_to :: "jsval \<Rightarrow> jsval \<Rightarrow> jsval" where
  "default_to d v = (if v = JUndefined then d else v)"

text \<open>\<^verbatim>\<open>String(req.query.email || "")\<close> on a query parameter.\<close>

definition or_empty :: "string option \<Rightarrow> string" where
  "or_empty x = (case x of None \<Rightarrow> [] | Some s \<Rightarrow> s)"

text \<open>
  The handlers are registered after \<^verbatim>\<open>userCollection\<close> and \<^verbatim>\<open>tasksCollection\<close>
  have been bound to collection objects, which are truthy: the guard that
  answers 503 is never taken and has no branch here. Each handler takes the
  collection it works on and returns it with the response. \<open>now\<close> is the
  clock at \<^verbatim>\<open>new Date()\<close> and \<open>newid\<close> the identifier generated for an
  insertion.
\<close>

subsection \<open>\<^verbatim>\<open>POST /users\<close>\<close>

definition post_users :: "int \<Rightarrow> string \<Rightarrow> request \<Rightarrow> collection \<Rightarrow> response \<times> collection" where
  "post_users now newid rq c =
     (let name = default_to (JStr '''') (body rq ''name'');
          email = body rq ''email'';
          photo = default_to (JStr '''') (body rq ''photo'');
          bio = default_to (JStr '''') (body rq ''bio'');
          authProvider = default_to (JStr ''password'') (body rq ''authProvider'')
      in if \<not> truthy email then (reply 400 (error ''Email is required''), c)
         else
           case updateOne [([''email''], Prim email)]
                  [(''name'', Prim name), (''photo'', Prim photo), (''bio'', Prim bio),
                   (''authProvider'', Prim authProvider), (''updatedAt'', BDate now)]
                  [(''createdAt'', BDate now)] True newid c of
             (Inl err, c') \<Rightarrow>
               if code err = Some 11000
               then (reply 409 (error ''User with this email already exists''), c')
               else (internal_server_error, c')
           | (Inr result, c') \<Rightarrow>
               let created = (upsertedCount result \<noteq> 0)
               in (reply (if created then 201 else 200)
                     [(''ok'', Prim (JBool True)), (''created'', Prim (JBool created)),
                      (''email'', Prim email)], c'))"

subsection \<open>\<^verbatim>\<open>GET /users/:email\<close>\<close>

definition user_projection :: "document \<Rightarrow> fields" where
  "user_projection doc =
     map (\<lambda>k. (k, get (to_object doc) k))
       [''name'', ''email'', ''photo'', ''bio'', ''authProvider'', ''createdAt'', ''updatedAt'']"

definition get_users_email :: "request \<Rightarrow> collection \<Rightarrow> response \<times> collection" where
  "get_users_email rq c =
     (let rawEmail = params rq ''email''
      in if rawEmail = [] then (reply 400 (error ''Email required''), c)
         else
           case findOne [([''email''], Prim (JStr rawEmail))] c of
             (Inl e, c1) \<Rightarrow> (internal_server_error, c1)
           | (Inr (Some doc), c1) \<Rightarrow> (reply 200 (user_projection doc), c1)
           | (Inr None, c1) \<Rightarrow>
               (case findOne [([''email''], Prim (JStr (toLowerCase rawEmail)))] c1 of
                  (Inl e, c2) \<Rightarrow> (internal_server_error, c2)
                | (Inr None, c2) \<Rightarrow> (reply 404 (error ''User not found''), c2)
                | (Inr (Some doc), c2) \<Rightarrow> (reply 200 (user_projection doc), c2)))"

subsection \<open>\<^verbatim>\<open>POST /tasks\<close>\<close>

definition post_tasks ::
  "platform \<Rightarrow> int \<Rightarrow> string \<Rightarrow> request \<Rightarrow> collection \<Rightarrow> response \<times> collection" where
  "post_tasks P now newid rq c =
     (let title = body rq ''title'';
          category = body rq ''category'';
          description = body rq ''description'';
          deadline = body rq ''deadline'';
          budget = body rq ''budget'';
          userEmail = body rq ''userEmail'';
          userName = body rq ''userName''
      in if \<not> truthy title \<or> trim (String P title) = []
         then (reply 400 (error ''Title is required''), c)
         else if \<not> truthy category
         then (reply 400 (error ''Category is required''), c)
         else if \<not> truthy description \<or> trim (String P description) = []
         then (reply 400 (error ''Description is required''), c)
         else if \<not> truthy deadline
         then (reply 400 (error ''Deadline is required''), c)
         else if budget = JUndefined \<or> budget = JNull \<or> isNaN (Number budget)
         then (reply 400 (error ''Budget must be a number''), c)
         else if \<not> truthy userEmail
         then (reply 400 (error ''User email is required''), c)
         else
           case new_Date P deadline of
             None \<Rightarrow> (reply 400 (error ''Deadline must be a valid date''), c)
           | Some deadlineDate \<Rightarrow>
               let doc =
                 [(''title'', Prim (JStr (trim (String P title)))),
                  (''category'', Prim category),
                  (''description'', Prim (JStr (trim (String P description)))),
                  (''deadline'', BDate deadlineDate),
                  (''budget'', Prim (JNum (Number budget))),
                  (''author'',
                     Doc [(''email'', Prim (JStr (toLowerCase (String P userEmail)))),
                          (''name'', Prim (js_or userName (JStr '''')))]),
                  (''status'', Prim (JStr ''open'')),
                  (''createdAt'', BDate now),
                  (''updatedAt'', BDate now)]
               in (case insertOne newid doc c of
                     (Inl e, c') \<Rightarrow> (internal_server_error, c')
                   | (Inr insertedId, c') \<Rightarrow>
                       (reply 201 [(''ok'', Prim (JBool True)), (''id'', ObjectId insertedId)], c')))"

subsection \<open>\<^verbatim>\<open>GET /tasks\<close>\<close>

text \<open>
  \<^verbatim>\<open>({ _id, deadline, ...rest }) => ({ _id: _id.toString(), deadline, ...rest })\<close>
\<close>

definition normalize :: "document \<Rightarrow> fields" where
  "normalize d =
     (''_id'', Prim (JStr (oid d))) #
     (''deadline'', get (to_object d) ''deadline'') #
     filter (\<lambda>(k, v). k \<noteq> ''_id'' \<and> k \<noteq> ''deadline'') (to_object d)"

text \<open>The filter \<^verbatim>\<open>q\<close> that the handler builds from the query string.\<close>

definition tasks_filter :: "request \<Rightarrow> filter" where
  "tasks_filter rq =
     (case query rq ''email'' of
        None \<Rightarrow> []
      | Some e \<Rightarrow> if e = [] then [] else [([''author'', ''email''], Prim (JStr (toLowerCase e)))])
     @
     (case query rq ''category'' of
        None \<Rightarrow> []
      | Some g \<Rightarrow> if g = [] then [] else [([''category''], Prim (JStr g))])"

definition get_tasks :: "request \<Rightarrow> collection \<Rightarrow> response \<times> collection" where
  "get_tasks rq c =
     (case find_sort_desc_limit (tasks_filter rq) ''createdAt'' 100 c of
        (Inl e, c') \<Rightarrow> (internal_server_error, c')
      | (Inr ds, c') \<Rightarrow> (\<lparr>status = 200, json = Array (map normalize ds)\<rparr>, c'))"

subsection \<open>\<^verbatim>\<open>GET /tasks/:id\<close>\<close>

text \<open>
  The inner \<^verbatim>\<open>try\<close> holds the construction of the identifier and the awaited
  \<^verbatim>\<open>findOne\<close>: its \<^verbatim>\<open>catch\<close> answers for both.
\<close>

definition get_tasks_id :: "request \<Rightarrow> collection \<Rightarrow> response \<times> collection" where
  "get_tasks_id rq c =
     (let id = params rq ''id''
      in case new_ObjectId id of
           None \<Rightarrow> (reply 400 (error ''Invalid task id''), c)
         | Some i \<Rightarrow>
             (case findOne [([''_id''], ObjectId i)] c of
                (Inl e, c') \<Rightarrow> (reply 400 (error ''Invalid task id''), c')
              | (Inr None, c') \<Rightarrow> (reply 404 (error ''Task not found''), c')
              | (Inr (Some doc), c') \<Rightarrow> (reply 200 (to_object doc), c')))"

subsection \<open>\<^verbatim>\<open>DELETE /tasks/:id\<close>\<close>

text \<open>\<^verbatim>\<open>task.author?.email || ""\<close>\<close>

definition author_email :: "document \<Rightarrow> bson" where
  "author_email task =
     bson_or (get_opt (get (to_object task) ''author'') ''email'') (Prim (JStr ''''))"

definition delete_tasks_id :: "request \<Rightarrow> collection \<Rightarrow> response \<times> collection" where
  "delete_tasks_id rq c =
     (let id = params rq ''id'';
          email = toLowerCase (or_empty (query rq ''email''))
      in if email = [] then (reply 400 (error ''Email is required''), c)
         else
           case new_ObjectId id of
             None \<Rightarrow> (reply 400 (error ''Invalid task id''), c)
           | Some i \<Rightarrow>
               (case findOne [([''_id''], ObjectId i)] c of
                  (Inl e, c1) \<Rightarrow> (internal_server_error, c1)
                | (Inr None, c1) \<Rightarrow> (reply 404 (error ''Task not found''), c1)
                | (Inr (Some task), c1) \<Rightarrow>
                    if author_email task \<noteq> Prim (JStr email)
                    then (reply 403 (error ''Not allowed to delete this task''), c1)
                    else
                      (case deleteOne [([''_id''], ObjectId i)] c1 of
                         (Inl e, c2) \<Rightarrow> (internal_server_error, c2)
                       | (Inr deletedCount, c2) \<Rightarrow>
                           if deletedCount = 0
                           then (reply 500 (error ''Failed to delete task''), c2)
                           else (reply 200 [(''ok'', Prim (JBool True)),
                                            (''id'', Prim (JStr id))], c2))))"

subsection \<open>\<^verbatim>\<open>PATCH /tasks/:id\<close>\<close>

definition patch_tasks_id ::
  "platform \<Rightarrow> int \<Rightarrow> request \<Rightarrow> collection \<Rightarrow> response \<times> collection" where
  "patch_tasks_id P now rq c =
     (let email = toLowerCase (or_empty (query rq ''email''))
      in if email = [] then (reply 400 (error ''Email is required''), c)
         else
           case new_ObjectId (params rq ''id'') of
             None \<Rightarrow> (reply 400 (error ''Invalid task id''), c)
           | Some i \<Rightarrow>
               (case findOne [([''_id''], ObjectId i)] c of
                  (Inl e, c1) \<Rightarrow> (internal_server_error, c1)
                | (Inr None, c1) \<Rightarrow> (reply 404 (error ''Task not found''), c1)
                | (Inr (Some existing), c1) \<Rightarrow>
                    if author_email existing \<noteq> Prim (JStr email)
                    then (reply 403 (error ''Not allowed to update this task''), c1)
                    else
                      let title = body rq ''title'';
                          category = body rq ''category'';
                          description = body rq ''description'';
                          deadline = body rq ''deadline'';
                          budget = body rq ''budget''
                      in if \<not> truthy title \<or> trim (String P title) = []
                         then (reply 400 (error ''Title is required''), c1)
                         else if \<not> truthy category
                         then (reply 400 (error ''Category is required''), c1)
                         else if \<not> truthy description \<or> trim (String P description) = []
                         then (reply 400 (error ''Description is required''), c1)
                         else if \<not> truthy deadline
                         then (reply 400 (error ''Deadline is required''), c1)
                         else if budget = JUndefined \<or> budget = JNull \<or> isNaN (Number budget)
                         then (reply 400 (error ''Budget must be a number''), c1)
                         else
                           (case new_Date P deadline of
                             None \<Rightarrow> (reply 400 (error ''Deadline must be a valid date''), c1)
                           | Some deadlineDate \<Rightarrow>
                               (case updateOne [([''_id''], ObjectId i)]
                                       [(''title'', Prim (JStr (trim (String P title)))),
                                        (''category'', Prim category),
                                        (''description'', Prim (JStr (trim (String P description)))),
                                        (''deadline'', BDate deadlineDate),
                                        (''budget'', Prim (JNum (Number budget))),
                                        (''updatedAt'', BDate now)]
                                       [] False [] c1 of
                                  (Inl e, c2) \<Rightarrow> (internal_server_error, c2)
                                | (Inr r, c2) \<Rightarrow>
                                    if matchedCount r = 0
                                    then (reply 404 (error ''Task not found''), c2)
                                    else (reply 200 [(''ok'', Prim (JBool True)),
                                                     (''id'', Prim (JStr i))], c2)))))"

section \<open>Notions for the statements\<close>

text \<open>The filter \<^verbatim>\<open>{ email }\<close>.\<close>

definition by_email :: "jsval \<Rightarrow> filter" where
  "by_email e = [([''email''], Prim e)]"

text \<open>The filter \<^verbatim>\<open>{ _id }\<close>.\<close>

definition by_id :: "string \<Rightarrow> filter" where
  "by_id i = [([''_id''], ObjectId i)]"

text \<open>
  The \<^verbatim>\<open>$set\<close> document of \<^verbatim>\<open>POST /users\<close>,
  \<^verbatim>\<open>{ name, photo, bio, authProvider, updatedAt: now }\<close>, with the defaults of
  the destructuring applied.
\<close>

definition user_set :: "int \<Rightarrow> request \<Rightarrow> fields" where
  "user_set now rq =
     [(''name'', Prim (default_to (JStr '''') (body rq ''name''))),
      (''photo'', Prim (default_to (JStr '''') (body rq ''photo''))),
      (''bio'', Prim (default_to (JStr '''') (body rq ''bio''))),
      (''authProvider'', Prim (default_to (JStr ''password'') (body rq ''authProvider''))),
      (''updatedAt'', BDate now)]"

text \<open>The answer \<^verbatim>\<open>{ ok: true, created, email }\<close> of \<^verbatim>\<open>POST /users\<close> with its status.\<close>

definition user_reply :: "bool \<Rightarrow> jsval \<Rightarrow> response" where
  "user_reply created e =
     reply (if created then 201 else 200)
       [(''ok'', Prim (JBool True)), (''created'', Prim (JBool created)), (''email'', Prim e)]"

text \<open>
  A run of \<^verbatim>\<open>POST /users\<close> requests, one after the other: each comes with the
  clock at its arrival and the identifier the store would give a new
  document.
\<close>

record users_call =
  clock :: int
  generated :: string
  sent :: request

fun post_users_all :: "users_call list \<Rightarrow> collection \<Rightarrow> response list \<times> collection" where
  "post_users_all [] c = ([], c)"
| "post_users_all (x # xs) c =
     (case post_users (clock x) (generated x) (sent x) c of
        (r, c1) \<Rightarrow> (case post_users_all xs c1 of (rs, c2) \<Rightarrow> (r # rs, c2)))"

text \<open>
  What the two query parameters of \<^verbatim>\<open>GET /tasks\<close> ask of a task: each
  parameter that is given and not empty must be met, the email in lower case
  by \<^verbatim>\<open>author.email\<close> and the category by \<^verbatim>\<open>category\<close>.
\<close>

definition selected :: "request \<Rightarrow> document \<Rightarrow> bool" where
  "selected rq d =
     ((case query rq ''email'' of
         None \<Rightarrow> True
       | Some e \<Rightarrow> e = [] \<or> get_opt (get (props d) ''author'') ''email'' = Prim (JStr (toLowerCase e)))
      \<and> (case query rq ''category'' of
         None \<Rightarrow> True
       | Some g \<Rightarrow> g = [] \<or> get (props d) ''category'' = Prim (JStr g)))"

text \<open>The order of \<^verbatim>\<open>sort({ createdAt: -1 })\<close>: no document before a newer one.\<close>

definition newest_first :: "document list \<Rightarrow> bool" where
  "newest_first ds =
     sorted_wrt (\<lambda>a b. sort_rank (get (props b) ''createdAt'') \<le> sort_rank (get (props a) ''createdAt'')) ds"

text \<open>
  The checks of \<^verbatim>\<open>POST /tasks\<close> and \<^verbatim>\<open>PATCH /tasks/:id\<close> on the body, named
  for the statements below: the four checks that come before the one on the
  budget, the check on the budget, and all the checks of \<^verbatim>\<open>PATCH\<close> together.
\<close>

definition text_fields_accepted :: "platform \<Rightarrow> request \<Rightarrow> bool" where
  "text_fields_accepted P rq =
     (truthy (body rq ''title'') \<and> trim (String P (body rq ''title'')) \<noteq> []
      \<and> truthy (body rq ''category'')
      \<and> truthy (body rq ''description'') \<and> trim (String P (body rq ''description'')) \<noteq> []
      \<and> truthy (body rq ''deadline''))"

definition budget_rejected :: "request \<Rightarrow> bool" where
  "budget_rejected rq =
     (body rq ''budget'' = JUndefined \<or> body rq ''budget'' = JNull
      \<or> isNaN (Number (body rq ''budget'')))"

definition body_accepted :: "platform \<Rightarrow> request \<Rightarrow> bool" where
  "body_accepted P rq =
     (text_fields_accepted P rq \<and> \<not> budget_rejected rq
      \<and> new_Date P (body rq ''deadline'') \<noteq> None)"

text \<open>The \<^verbatim>\<open>$set\<close> document of \<^verbatim>\<open>PATCH /tasks/:id\<close>, the deadline parsed to \<open>t\<close>.\<close>

definition task_set :: "platform \<Rightarrow> int \<Rightarrow> request \<Rightarrow> int \<Rightarrow> fields" where
  "task_set P now rq t =
     [(''title'', Prim (JStr (trim (String P (body rq ''title''))))),
      (''category'', Prim (body rq ''category'')),
      (''description'', Prim (JStr (trim (String P (body rq ''description''))))),
      (''deadline'', BDate t),
      (''budget'', Prim (JNum (Number (body rq ''budget'')))),
      (''updatedAt'', BDate now)]"

text \<open>The value stored at \<^verbatim>\<open>author.email\<close>, \<^verbatim>\<open>undefined\<close> when there is none.\<close>

definition stored_author_email :: "document \<Rightarrow> bson" where
  "stored_author_email d = get_opt (get (props d) ''author'') ''email''"

text \<open>The caller's email as the handlers compare it.\<close>

definition caller_email :: "request \<Rightarrow> string" where
  "caller_email rq = toLowerCase (or_empty (query rq ''email''))"

text \<open>
  The wording "coercible to a finite number" of the specification, for the
  comparison with the check that the handlers make: \<^verbatim>\<open>Number\<close> gives neither
  \<^verbatim>\<open>NaN\<close> nor an infinity.
\<close>

definition coercible_to_finite :: "jsval \<Rightarrow> bool" where
  "coercible_to_finite v = (case Number v of Fin q \<Rightarrow> True | _ \<Rightarrow> False)"

section \<open>A platform and data for concrete evaluation\<close>

text \<open>
  The theorems below hold for every platform. Where a statement is evaluated
  on a concrete request, it is with this one: it prints whole numbers in
  decimal (a number with a fraction is printed without it, and no evaluation
  below prints one) and reads the ISO date-only form \<^verbatim>\<open>YYYY-MM-DD\<close> as
  midnight UTC of that day, as every engine does.
\<close>

fun decimal :: "nat \<Rightarrow> string" where
  "decimal n =
     (if n < 10 then [char_of (48 + n)]
      else decimal (n div 10) @ [char_of (48 + n mod 10)])"

definition print_whole :: "rat \<Rightarrow> string" where
  "print_whole q =
     (if q < 0 then CHR ''-'' # decimal (nat \<lceil>- q\<rceil>) else decimal (nat \<lfloor>q\<rfloor>))"

definition days_from_civil :: "int \<Rightarrow> int \<Rightarrow> int \<Rightarrow> int" where
  "days_from_civil y m d =
     (let y' = (if m \<le> 2 then y - 1 else y);
          era = y' div 400;
          yoe = y' - era * 400;
          doy = (153 * (if m > 2 then m - 3 else m + 9) + 2) div 5 + d - 1;
          doe = yoe * 365 + yoe div 4 - yoe div 100 + doy
      in era * 146097 + doe - 719468)"

definition days_in_month :: "int \<Rightarrow> int \<Rightarrow> int" where
  "days_in_month y m =
     (if m = 2 then (if y mod 4 = 0 \<and> (y mod 100 \<noteq> 0 \<or> y mod 400 = 0) then 29 else 28)
      else if m = 4 \<or> m = 6 \<or> m = 9 \<or> m = 11 then 30 else 31)"

definition iso_date :: "string \<Rightarrow> int option" where
  "iso_date s =
     (if length s = 10 \<and> s ! 4 = CHR ''-'' \<and> s ! 7 = CHR ''-'' then
        (case (numeral_value 10 (take 4 s), numeral_value 10 (take 2 (drop 5 s)),
               numeral_value 10 (drop 8 s)) of
           (Some y, Some m, Some d) \<Rightarrow>
             if 1 \<le> m \<and> m \<le> 12 \<and> 1 \<le> d \<and> int d \<le> days_in_month (int y) (int m)
             then Some (days_from_civil (int y) (int m) (int d) * 86400000)
             else None
         | _ \<Rightarrow> None)
      else None)"

definition engine :: platform where
  "engine = \<lparr>number_to_string = print_whole, date_parse = iso_date\<rparr>"

text \<open>A JSON object as the body of a request, and a request built from its parts.\<close>

definition json_object :: "(string \<times> jsval) list \<Rightarrow> string \<Rightarrow> jsval" where
  "json_object kvs k = (case map_of kvs k of None \<Rightarrow> JUndefined | Some v \<Rightarrow> v)"

definition request_of ::
  "(string \<times> string) list \<Rightarrow> (string \<times> string) list \<Rightarrow> (string \<times> jsval) list \<Rightarrow> request" where
  "request_of ps qs b =
     \<lparr>params = (\<lambda>k. case map_of ps k of None \<Rightarrow> [] | Some v \<Rightarrow> v),
      query = map_of qs,
      body = json_object b\<rparr>"

text \<open>A collection that holds the given documents and has no failure to come.\<close>

definition idle :: "document list \<Rightarrow> collection" where
  "idle ds = \<lparr>docs = ds, pending = []\<rparr>"

text \<open>A collection whose next operation fails: the connection is lost.\<close>

definition failing :: "document list \<Rightarrow> collection" where
  "failing ds = \<lparr>docs = ds, pending = [Some NetworkError]\<rparr>"

text \<open>A user as a first \<^verbatim>\<open>POST /users\<close> at time 5 stores it.\<close>

definition ann :: document where
  "ann = \<lparr>oid = ''65a000000000000000000001'',
          props = [(''email'', Prim (JStr ''Ann@x.com'')), (''name'', Prim (JStr ''Ann'')),
                   (''photo'', Prim (JStr ''p.png'')), (''bio'', Prim (JStr ''hello'')),
                   (''authProvider'', Prim (JStr ''google'')), (''updatedAt'', BDate 5),
                   (''createdAt'', BDate 5)]\<rparr>"

text \<open>A user stored under a lower-case email.\<close>

definition bob :: document where
  "bob = \<lparr>oid = ''65a000000000000000000003'',
          props = [(''email'', Prim (JStr ''bob@x.com'')), (''name'', Prim (JStr ''Bob'')),
                   (''photo'', Prim (JStr '''')), (''bio'', Prim (JStr '''')),
                   (''authProvider'', Prim (JStr ''password'')), (''updatedAt'', BDate 7),
                   (''createdAt'', BDate 6)]\<rparr>"

text \<open>Two requests for the same email, at the times 5 and 9.\<close>

definition first_call :: users_call where
  "first_call =
     \<lparr>clock = 5, generated = ''65a000000000000000000001'',
      sent = request_of [] [] [(''email'', JStr ''ann@x.com''), (''name'', JStr ''Ann'')]\<rparr>"

definition second_call :: users_call where
  "second_call =
     \<lparr>clock = 9, generated = ''65a000000000000000000002'',
      sent = request_of [] []
               [(''email'', JStr ''ann@x.com''), (''name'', JStr ''Ann B''), (''bio'', JStr ''hi'')]\<rparr>"

text \<open>
  Three tasks as \<^verbatim>\<open>POST /tasks\<close> stores them: two of \<^verbatim>\<open>owner@x.com\<close>, created
  at the times 1000 and 3000, and one of \<^verbatim>\<open>other@x.com\<close>, created at 2000.
\<close>

definition task_doc ::
  "string \<Rightarrow> string \<Rightarrow> string \<Rightarrow> rat \<Rightarrow> string \<Rightarrow> int \<Rightarrow> document" where
  "task_doc i title category budget email created =
     \<lparr>oid = i,
      props = [(''title'', Prim (JStr title)), (''category'', Prim (JStr category)),
               (''description'', Prim (JStr ''to do'')), (''deadline'', BDate 1735689600000),
               (''budget'', Prim (JNum (Fin budget))),
               (''author'', Doc [(''email'', Prim (JStr email)), (''name'', Prim (JStr ''''))]),
               (''status'', Prim (JStr ''open'')), (''createdAt'', BDate created),
               (''updatedAt'', BDate created)]\<rparr>"

definition site_task :: document where
  "site_task = task_doc ''507f1f77bcf86cd799439011'' ''Site'' ''web'' 150 ''owner@x.com'' 1000"

definition essay_task :: document where
  "essay_task = task_doc ''507f1f77bcf86cd799439012'' ''Essay'' ''writing'' 40 ''other@x.com'' 2000"

definition logo_task :: document where
  "logo_task = task_doc ''507f1f77bcf86cd799439013'' ''Logo'' ''design'' 80 ''owner@x.com'' 3000"

text \<open>A \<^verbatim>\<open>PATCH\<close> of the first sample task by its author.\<close>

definition shop_patch :: request where
  "shop_patch =
     request_of [(''id'', ''507f1f77bcf86cd799439011'')] [(''email'', ''Owner@X.com'')]
       [(''title'', JStr '' Shop ''), (''category'', JStr ''web''),
        (''description'', JStr ''A shop''), (''deadline'', JStr ''2025-03-01''),
        (''budget'', JStr ''200.5'')]"

text \<open>Requests on the first sample task: by another user, and without an email.\<close>

definition other_request :: request where
  "other_request =
     request_of [(''id'', ''507f1f77bcf86cd799439011'')] [(''email'', ''other@x.com'')]
       [(''title'', JStr '' Shop ''), (''category'', JStr ''web''),
        (''description'', JStr ''A shop''), (''deadline'', JStr ''2025-03-01''),
        (''budget'', JStr ''200.5'')]"

definition empty_email_request :: request where
  "empty_email_request =
     request_of [(''id'', ''507f1f77bcf86cd799439011'')] [(''email'', '''')] []"

text \<open>A \<^verbatim>\<open>PATCH\<close> of the first sample task by its author, with a blank title.\<close>

definition blank_title_patch :: request where
  "blank_title_patch =
     request_of [(''id'', ''507f1f77bcf86cd799439011'')] [(''email'', ''owner@x.com'')]
       [(''title'', JStr ''  ''), (''category'', JStr ''web''),
        (''description'', JStr ''A shop''), (''deadline'', JStr ''2025-03-01''),
        (''budget'', JStr ''200.5'')]"

text \<open>A task without an author, and a request on it.\<close>

definition orphan_task :: document where
  "orphan_task =
     \<lparr>oid = ''507f1f77bcf86cd799439014'',
      props = [(''title'', Prim (JStr ''Old'')), (''category'', Prim (JStr ''web'')),
               (''status'', Prim (JStr ''open'')), (''createdAt'', BDate 500)]\<rparr>"

definition orphan_request :: request where
  "orphan_request =
     request_of [(''id'', ''507f1f77bcf86cd799439014'')] [(''email'', ''Owner@X.com'')]
       [(''title'', JStr ''New''), (''category'', JStr ''web''),
        (''description'', JStr ''renewed''), (''deadline'', JStr ''2025-03-01''),
        (''budget'', JNum (Fin 10))]"

text \<open>
  Bodies for \<^verbatim>\<open>POST /tasks\<close>: a complete one, one whose budget is the string
  \<^verbatim>\<open>"Infinity"\<close>, and one with a budget of 150 and no title.
\<close>

definition task_body :: "jsval \<Rightarrow> (string \<times> jsval) list" where
  "task_body budget =
     [(''category'', JStr ''web''), (''description'', JStr ''A shop''),
      (''deadline'', JStr ''2025-03-01''), (''budget'', budget),
      (''userEmail'', JStr ''Owner@X.com''), (''userName'', JStr ''Olga'')]"

definition priced_task :: request where
  "priced_task = request_of [] [] ((''title'', JStr ''Shop'') # task_body (JStr ''150.5''))"

definition infinite_budget_task :: request where
  "infinite_budget_task = request_of [] [] ((''title'', JStr ''Shop'') # task_body (JStr ''Infinity''))"

definition untitled_task :: request where
  "untitled_task = request_of [] [] (task_body (JNum (Fin 150)))"

text \<open>A body for \<^verbatim>\<open>POST /tasks\<close> whose budget is no number.\<close>

definition unpriced_task :: request where
  "unpriced_task = request_of [] [] ((''title'', JStr ''Shop'') # task_body (JStr ''abc''))"

section \<open>Store operations without failures\<close>

lemma next_outcome_idle: "pending c = [] \<Longrightarrow> next_outcome c = (None, c)"
  by (simp add: next_outcome_def)

lemma findOne_idle:
  "pending c = [] \<Longrightarrow> findOne q c = (Inr (find (matches q) (docs c)), c)"
  by (simp add: findOne_def next_outcome_idle)

lemma updateOne_idle:
  "pending c = [] \<Longrightarrow> updateOne q s i upsert newid c =
     (if list_ex (matches q) (docs c) then
        (Inr \<lparr>matchedCount = 1, upsertedCount = 0\<rparr>,
         c\<lparr>docs := update_first (matches q) (\<lambda>d. d\<lparr>props := set_fields s (props d)\<rparr>) (docs c)\<rparr>)
      else if upsert then
        (Inr \<lparr>matchedCount = 0, upsertedCount = 1\<rparr>,
         c\<lparr>docs := docs c @
            [\<lparr>oid = newid,
              props = set_fields i (set_fields s
                         (concat (map (\<lambda>(p, v). case p of [k] \<Rightarrow> [(k, v)] | _ \<Rightarrow> []) q)))\<rparr>]\<rparr>)
      else (Inr \<lparr>matchedCount = 0, upsertedCount = 0\<rparr>, c))"
  by (simp add: updateOne_def next_outcome_idle)

lemma deleteOne_idle:
  "pending c = [] \<Longrightarrow> deleteOne q c =
     (if list_ex (matches q) (docs c)
      then (Inr 1, c\<lparr>docs := remove_first (matches q) (docs c)\<rparr>)
      else (Inr 0, c))"
  by (simp add: deleteOne_def next_outcome_idle)

section \<open>Documents and filters\<close>

lemma get_to_object:
  "get (to_object d) k = (if k = ''_id'' then ObjectId (oid d) else get (props d) k)"
  by (simp add: get_def to_object_def)

lemma matches_by_email: "matches (by_email e) d \<longleftrightarrow> get (props d) ''email'' = Prim e"
  by (simp add: matches_def by_email_def get_opt_def get_to_object)

text \<open>The first document that satisfies a condition, in a list split around it.\<close>

lemma update_first_at:
  "\<forall>y\<in>set ys. \<not> p y \<Longrightarrow> p x \<Longrightarrow> update_first p f (ys @ x # zs) = ys @ f x # zs"
  by (induction ys) auto

lemma remove_first_at:
  "\<forall>y\<in>set ys. \<not> p y \<Longrightarrow> p x \<Longrightarrow> remove_first p (ys @ x # zs) = ys @ zs"
  by (induction ys) auto

lemma find_at:
  "\<forall>y\<in>set ys. \<not> p y \<Longrightarrow> p x \<Longrightarrow> find p (ys @ x # zs) = Some x"
  by (induction ys) auto

text \<open>Reading a field after \<^verbatim>\<open>$set\<close>: the last value set for it, or the old one.\<close>

lemma map_of_set_fields:
  "map_of (set_fields upd fs) x =
     (case map_of (rev upd) x of None \<Rightarrow> map_of fs x | Some v \<Rightarrow> Some v)"
  unfolding set_fields_def
proof (induction upd arbitrary: fs)
  case Nil
  then show ?case by simp
next
  case (Cons a upd)
  obtain k v where a: "a = (k, v)" by (cases a)
  show ?case
    by (auto simp add: a Cons.IH AList.update_conv' map_add_def split: option.splits)
qed

lemma get_set_fields:
  "get (set_fields upd fs) k = (case map_of (rev upd) k of None \<Rightarrow> get fs k | Some v \<Rightarrow> v)"
  by (simp add: get_def map_of_set_fields split: option.splits)

lemma get_set_single: "get (set_fields [(k, v)] fs) k' = (if k' = k then v else get fs k')"
  by (simp add: get_set_fields)

lemma get_Nil: "get [] k = Prim JUndefined"
  by (simp add: get_def)

lemma get_Cons: "get ((k, v) # fs) k' = (if k = k' then v else get fs k')"
  by (simp add: get_def)

section \<open>\<^verbatim>\<open>POST /users\<close>: the upsert\<close>

lemma get_user_set:
  "get (set_fields (user_set now rq) fs) k =
     (if k = ''name'' then Prim (default_to (JStr '''') (body rq ''name''))
      else if k = ''photo'' then Prim (default_to (JStr '''') (body rq ''photo''))
      else if k = ''bio'' then Prim (default_to (JStr '''') (body rq ''bio''))
      else if k = ''authProvider'' then Prim (default_to (JStr ''password'') (body rq ''authProvider''))
      else if k = ''updatedAt'' then BDate now
      else get fs k)"
  by (simp add: get_set_fields user_set_def)

lemma post_users_idle:
  assumes "pending c = []" and "truthy (body rq ''email'')"
  shows "post_users now newid rq c =
     (if list_ex (matches (by_email (body rq ''email''))) (docs c)
      then (user_reply False (body rq ''email''),
            c\<lparr>docs := update_first (matches (by_email (body rq ''email'')))
                         (\<lambda>d. d\<lparr>props := set_fields (user_set now rq) (props d)\<rparr>) (docs c)\<rparr>)
      else (user_reply True (body rq ''email''),
            c\<lparr>docs := docs c @
               [\<lparr>oid = newid,
                 props = set_fields [(''createdAt'', BDate now)]
                           (set_fields (user_set now rq) [(''email'', Prim (body rq ''email''))])\<rparr>]\<rparr>))"
  using assms
  by (simp add: post_users_def updateOne_idle user_set_def by_email_def user_reply_def Let_def)

lemma post_users_existing:
  assumes "pending c = []" and "truthy (body rq ''email'')"
    and "docs c = before @ d # after"
    and "\<forall>x\<in>set before. get (props x) ''email'' \<noteq> Prim (body rq ''email'')"
    and "get (props d) ''email'' = Prim (body rq ''email'')"
  shows "post_users now newid rq c =
           (user_reply False (body rq ''email''),
            c\<lparr>docs := before @ d\<lparr>props := set_fields (user_set now rq) (props d)\<rparr> # after\<rparr>)"
proof -
  let ?q = "by_email (body rq ''email'')"
  from assms(3-5) have "list_ex (matches ?q) (docs c)"
    by (simp add: list_ex_iff matches_by_email)
  moreover from assms(3-5)
  have "update_first (matches ?q) (\<lambda>d. d\<lparr>props := set_fields (user_set now rq) (props d)\<rparr>) (docs c)
       = before @ d\<lparr>props := set_fields (user_set now rq) (props d)\<rparr> # after"
    by (simp add: update_first_at matches_by_email)
  ultimately show ?thesis
    using post_users_idle [OF assms(1,2), of now newid] by simp
qed

text \<open>
  C3. \<^verbatim>\<open>POST /users\<close> with an email that is absent (\<open>JUndefined\<close>) or empty
  (\<open>JStr []\<close>), or falsy in any other way, answers 400 and leaves the
  collection as it is. With any other email, and a store that answers, the
  handler performs the one upsert on the filter \<^verbatim>\<open>{ email }\<close>: when a stored
  document has that email, the first such document gets the fields of
  \<^verbatim>\<open>$set\<close>, nothing is inserted, and the answer is 200 with \<^verbatim>\<open>created: false\<close>;
  when none has, one document is inserted and the answer is 201 with
  \<^verbatim>\<open>created: true\<close>. Both answers are \<^verbatim>\<open>{ ok: true, created, email }\<close>.
\<close>

theorem post_users_upsert:
  "(\<not> truthy (body rq ''email'') \<longrightarrow>
      post_users now newid rq c = (reply 400 (error ''Email is required''), c))
   \<and> (truthy (body rq ''email'') \<and> pending c = []
        \<and> list_ex (matches (by_email (body rq ''email''))) (docs c) \<longrightarrow>
      post_users now newid rq c =
        (reply 200 [(''ok'', Prim (JBool True)), (''created'', Prim (JBool False)),
                    (''email'', Prim (body rq ''email''))],
         c\<lparr>docs := update_first (matches (by_email (body rq ''email'')))
                      (\<lambda>d. d\<lparr>props := set_fields (user_set now rq) (props d)\<rparr>) (docs c)\<rparr>))
   \<and> (truthy (body rq ''email'') \<and> pending c = []
        \<and> \<not> list_ex (matches (by_email (body rq ''email''))) (docs c) \<longrightarrow>
      post_users now newid rq c =
        (reply 201 [(''ok'', Prim (JBool True)), (''created'', Prim (JBool True)),
                    (''email'', Prim (body rq ''email''))],
         c\<lparr>docs := docs c @
            [\<lparr>oid = newid,
              props = set_fields [(''createdAt'', BDate now)]
                        (set_fields (user_set now rq) [(''email'', Prim (body rq ''email''))])\<rparr>]\<rparr>))"
  by (simp add: post_users_def updateOne_idle user_set_def by_email_def Let_def)

theorem post_users_upsert_witness:
  "\<not> truthy (body (request_of [] [] [(''name'', JStr ''Ann'')]) ''email'')
   \<and> post_users 9 ''65a000000000000000000002'' (request_of [] [] [(''name'', JStr ''Ann'')]) (idle [ann])
       = (reply 400 (error ''Email is required''), idle [ann])
   \<and> truthy (body (request_of [] [] [(''email'', JStr ''Ann@x.com'')]) ''email'')
   \<and> pending (idle [ann]) = []
   \<and> list_ex (matches (by_email (body (request_of [] [] [(''email'', JStr ''Ann@x.com'')]) ''email'')))
        (docs (idle [ann]))
   \<and> status (fst (post_users 9 ''65a000000000000000000002''
        (request_of [] [] [(''email'', JStr ''Ann@x.com'')]) (idle [ann]))) = 200
   \<and> \<not> list_ex (matches (by_email (body (request_of [] [] [(''email'', JStr ''Ann@x.com'')]) ''email'')))
        (docs (idle []))
   \<and> status (fst (post_users 9 ''65a000000000000000000002''
        (request_of [] [] [(''email'', JStr ''Ann@x.com'')]) (idle []))) = 201"
proof -
  let ?anon = "request_of [] [] [(''name'', JStr ''Ann'')]"
  let ?rq = "request_of [] [] [(''email'', JStr ''Ann@x.com'')]"
  have absent: "\<not> truthy (body ?anon ''email'')"
    by (simp add: request_of_def json_object_def)
  have given: "truthy (body ?rq ''email'')"
    by (simp add: request_of_def json_object_def)
  have quiet: "pending (idle ds) = []" for ds
    by (simp add: idle_def)
  have known: "list_ex (matches (by_email (body ?rq ''email''))) (docs (idle [ann]))"
    by (simp add: request_of_def json_object_def idle_def ann_def matches_by_email get_def)
  have unknown: "\<not> list_ex (matches (by_email (body ?rq ''email''))) (docs (idle []))"
    by (simp add: idle_def)
  from post_users_upsert [of ?anon 9 "''65a000000000000000000002''" "idle [ann]"] absent
  have r400: "post_users 9 ''65a000000000000000000002'' ?anon (idle [ann])
                = (reply 400 (error ''Email is required''), idle [ann])"
    by blast
  from post_users_upsert [of ?rq 9 "''65a000000000000000000002''" "idle [ann]"] given quiet known
  have r200: "status (fst (post_users 9 ''65a000000000000000000002'' ?rq (idle [ann]))) = 200"
    by (simp add: reply_def)
  from post_users_upsert [of ?rq 9 "''65a000000000000000000002''" "idle []"] given quiet unknown
  have r201: "status (fst (post_users 9 ''65a000000000000000000002'' ?rq (idle []))) = 201"
    by (simp add: reply_def)
  from absent r400 given quiet known r200 unknown r201 show ?thesis
    by blast
qed

section \<open>\<^verbatim>\<open>POST /users\<close> for a known email: omitted fields\<close>

text \<open>
  C9. When \<^verbatim>\<open>POST /users\<close> comes for an email that a stored document \<open>d\<close>
  has (the first with it) and the store answers, the document is replaced
  by one with the same identifier in which every field among \<^verbatim>\<open>name\<close>,
  \<^verbatim>\<open>photo\<close>, \<^verbatim>\<open>bio\<close> and \<^verbatim>\<open>authProvider\<close> that the body omits holds its
  default (the empty string, or \<^verbatim>\<open>"password"\<close> for \<^verbatim>\<open>authProvider\<close>), whatever
  \<open>d\<close> held there.
\<close>

theorem post_users_omitted_fields:
  assumes "pending c = []" and "truthy (body rq ''email'')"
    and "docs c = before @ d # after"
    and "\<forall>x\<in>set before. get (props x) ''email'' \<noteq> Prim (body rq ''email'')"
    and "get (props d) ''email'' = Prim (body rq ''email'')"
  shows "\<exists>d'. post_users now newid rq c =
            (user_reply False (body rq ''email''), c\<lparr>docs := before @ d' # after\<rparr>)
          \<and> oid d' = oid d
          \<and> (body rq ''name'' = JUndefined \<longrightarrow> get (props d') ''name'' = Prim (JStr ''''))
          \<and> (body rq ''photo'' = JUndefined \<longrightarrow> get (props d') ''photo'' = Prim (JStr ''''))
          \<and> (body rq ''bio'' = JUndefined \<longrightarrow> get (props d') ''bio'' = Prim (JStr ''''))
          \<and> (body rq ''authProvider'' = JUndefined \<longrightarrow>
                get (props d') ''authProvider'' = Prim (JStr ''password''))"
proof -
  let ?d' = "d\<lparr>props := set_fields (user_set now rq) (props d)\<rparr>"
  have "post_users now newid rq c =
          (user_reply False (body rq ''email''), c\<lparr>docs := before @ ?d' # after\<rparr>)"
    by (rule post_users_existing [OF assms])
  moreover have "oid ?d' = oid d" by simp
  moreover have "body rq ''name'' = JUndefined \<longrightarrow> get (props ?d') ''name'' = Prim (JStr '''')"
    by (simp add: get_user_set default_to_def)
  moreover have "body rq ''photo'' = JUndefined \<longrightarrow> get (props ?d') ''photo'' = Prim (JStr '''')"
    by (simp add: get_user_set default_to_def)
  moreover have "body rq ''bio'' = JUndefined \<longrightarrow> get (props ?d') ''bio'' = Prim (JStr '''')"
    by (simp add: get_user_set default_to_def)
  moreover have "body rq ''authProvider'' = JUndefined \<longrightarrow>
      get (props ?d') ''authProvider'' = Prim (JStr ''password'')"
    by (simp add: get_user_set default_to_def)
  ultimately show ?thesis by blast
qed

theorem post_users_omitted_fields_witness:
  "pending (idle [ann]) = []
   \<and> truthy (body (request_of [] [] [(''email'', JStr ''Ann@x.com'')]) ''email'')
   \<and> docs (idle [ann]) = [] @ ann # []
   \<and> get (props ann) ''email''
        = Prim (body (request_of [] [] [(''email'', JStr ''Ann@x.com'')]) ''email'')
   \<and> body (request_of [] [] [(''email'', JStr ''Ann@x.com'')]) ''name'' = JUndefined
   \<and> body (request_of [] [] [(''email'', JStr ''Ann@x.com'')]) ''authProvider'' = JUndefined
   \<and> get (props ann) ''name'' = Prim (JStr ''Ann'')
   \<and> get (props ann) ''authProvider'' = Prim (JStr ''google'')
   \<and> (\<exists>d'. snd (post_users 9 ''65a000000000000000000002''
                   (request_of [] [] [(''email'', JStr ''Ann@x.com'')]) (idle [ann]))
               = (idle [ann])\<lparr>docs := [d']\<rparr>
             \<and> get (props d') ''name'' = Prim (JStr '''')
             \<and> get (props d') ''authProvider'' = Prim (JStr ''password''))"
proof -
  let ?rq = "request_of [] [] [(''email'', JStr ''Ann@x.com'')]"
  have h1: "pending (idle [ann]) = []" by (simp add: idle_def)
  have h2: "truthy (body ?rq ''email'')" by (simp add: request_of_def json_object_def)
  have h3: "docs (idle [ann]) = [] @ ann # []" by (simp add: idle_def)
  have h4: "\<forall>x\<in>set []. get (props x) ''email'' \<noteq> Prim (body ?rq ''email'')" by simp
  have h5: "get (props ann) ''email'' = Prim (body ?rq ''email'')"
    by (simp add: request_of_def json_object_def ann_def get_def)
  have o1: "body ?rq ''name'' = JUndefined" by (simp add: request_of_def json_object_def)
  have o2: "body ?rq ''authProvider'' = JUndefined" by (simp add: request_of_def json_object_def)
  have p1: "get (props ann) ''name'' = Prim (JStr ''Ann'')" by (simp add: ann_def get_def)
  have p2: "get (props ann) ''authProvider'' = Prim (JStr ''google'')" by (simp add: ann_def get_def)
  from post_users_omitted_fields [OF h1 h2 h3 h4 h5, of 9 "''65a000000000000000000002''"] o1 o2
  have "\<exists>d'. snd (post_users 9 ''65a000000000000000000002'' ?rq (idle [ann]))
               = (idle [ann])\<lparr>docs := [d']\<rparr>
             \<and> get (props d') ''name'' = Prim (JStr '''')
             \<and> get (props d') ''authProvider'' = Prim (JStr ''password'')"
    by auto
  with h1 h2 h3 h5 o1 o2 p1 p2 show ?thesis by blast
qed

section \<open>\<^verbatim>\<open>POST /users\<close>, repeated\<close>

lemma post_users_later:
  assumes "truthy e"
    and "\<forall>x\<in>set calls. body (sent x) ''email'' = e"
    and "pending c = []"
    and "docs c = before @ [d]"
    and "\<forall>x\<in>set before. get (props x) ''email'' \<noteq> Prim e"
    and "get (props d) ''email'' = Prim e"
  shows "\<exists>d'. post_users_all calls c =
            (replicate (length calls) (user_reply False e), c\<lparr>docs := before @ [d']\<rparr>)
          \<and> oid d' = oid d
          \<and> get (props d') ''email'' = Prim e
          \<and> get (props d') ''createdAt'' = get (props d) ''createdAt''
          \<and> (if calls = [] then d' = d
              else \<forall>k\<in>{''name'', ''photo'', ''bio'', ''authProvider'', ''updatedAt''}.
                     get (props d') k =
                     get (set_fields (user_set (clock (last calls)) (sent (last calls))) []) k)"
  using assms(2-)
proof (induction calls arbitrary: c d)
  case Nil
  then show ?case by simp
next
  case (Cons x xs)
  let ?d1 = "d\<lparr>props := set_fields (user_set (clock x) (sent x)) (props d)\<rparr>"
  let ?c1 = "c\<lparr>docs := before @ [?d1]\<rparr>"
  from Cons.prems have ex: "body (sent x) ''email'' = e" by simp
  have step: "post_users (clock x) (generated x) (sent x) c = (user_reply False e, ?c1)"
    using post_users_existing [of c "sent x" before d "[]" "clock x" "generated x"]
      Cons.prems assms(1) ex by simp
  have "\<exists>d'. post_users_all xs ?c1 =
            (replicate (length xs) (user_reply False e), ?c1\<lparr>docs := before @ [d']\<rparr>)
          \<and> oid d' = oid ?d1
          \<and> get (props d') ''email'' = Prim e
          \<and> get (props d') ''createdAt'' = get (props ?d1) ''createdAt''
          \<and> (if xs = [] then d' = ?d1
              else \<forall>k\<in>{''name'', ''photo'', ''bio'', ''authProvider'', ''updatedAt''}.
                     get (props d') k =
                     get (set_fields (user_set (clock (last xs)) (sent (last xs))) []) k)"
  proof (rule Cons.IH)
    show "\<forall>x\<in>set xs. body (sent x) ''email'' = e" using Cons.prems by simp
    show "pending ?c1 = []" using Cons.prems by simp
    show "docs ?c1 = before @ [?d1]" by simp
    show "\<forall>x\<in>set before. get (props x) ''email'' \<noteq> Prim e" using Cons.prems by simp
    show "get (props ?d1) ''email'' = Prim e" using Cons.prems by (simp add: get_user_set)
  qed
  then obtain d' where rest: "post_users_all xs ?c1 =
            (replicate (length xs) (user_reply False e), ?c1\<lparr>docs := before @ [d']\<rparr>)"
      and id: "oid d' = oid ?d1"
      and em: "get (props d') ''email'' = Prim e"
      and cr: "get (props d') ''createdAt'' = get (props ?d1) ''createdAt''"
      and la: "if xs = [] then d' = ?d1
              else \<forall>k\<in>{''name'', ''photo'', ''bio'', ''authProvider'', ''updatedAt''}.
                     get (props d') k =
                     get (set_fields (user_set (clock (last xs)) (sent (last xs))) []) k"
    by blast
  have "post_users_all (x # xs) c =
          (replicate (length (x # xs)) (user_reply False e), c\<lparr>docs := before @ [d']\<rparr>)"
    by (simp add: step rest)
  moreover have "oid d' = oid d" using id by simp
  moreover have "get (props d') ''createdAt'' = get (props d) ''createdAt''"
    using cr by (simp add: get_user_set)
  moreover have "\<forall>k\<in>{''name'', ''photo'', ''bio'', ''authProvider'', ''updatedAt''}.
                     get (props d') k =
                     get (set_fields (user_set (clock (last (x # xs))) (sent (last (x # xs)))) []) k"
  proof (cases "xs = []")
    case True
    with la have "d' = ?d1" by simp
    with True show ?thesis by (simp add: get_user_set)
  next
    case False
    with la show ?thesis by simp
  qed
  ultimately show ?case using em by auto
qed

text \<open>
  C4. Take a collection in which no document has the email \<open>e\<close>, a store
  that answers, and any run of \<^verbatim>\<open>POST /users\<close> requests that all carry \<open>e\<close>.
  The first is answered 201 with \<^verbatim>\<open>created: true\<close> and every later one 200
  with \<^verbatim>\<open>created: false\<close>. After the run the collection holds one more
  document than before: it has the email \<open>e\<close>, its \<^verbatim>\<open>createdAt\<close> is the clock
  of the first request, and its \<^verbatim>\<open>name\<close>, \<^verbatim>\<open>photo\<close>, \<^verbatim>\<open>bio\<close>, \<^verbatim>\<open>authProvider\<close>
  and \<^verbatim>\<open>updatedAt\<close> are those of the last request.
\<close>

theorem post_users_repeated:
  assumes "pending c = []" and "truthy e"
    and "\<forall>x\<in>set (docs c). get (props x) ''email'' \<noteq> Prim e"
    and "\<forall>x\<in>set (first # rest). body (sent x) ''email'' = e"
  shows "\<exists>d. post_users_all (first # rest) c =
            (user_reply True e # replicate (length rest) (user_reply False e),
             c\<lparr>docs := docs c @ [d]\<rparr>)
          \<and> get (props d) ''email'' = Prim e
          \<and> get (props d) ''createdAt'' = BDate (clock first)
          \<and> get (props d) ''name''
              = Prim (default_to (JStr '''') (body (sent (last (first # rest))) ''name''))
          \<and> get (props d) ''photo''
              = Prim (default_to (JStr '''') (body (sent (last (first # rest))) ''photo''))
          \<and> get (props d) ''bio''
              = Prim (default_to (JStr '''') (body (sent (last (first # rest))) ''bio''))
          \<and> get (props d) ''authProvider''
              = Prim (default_to (JStr ''password'') (body (sent (last (first # rest))) ''authProvider''))
          \<and> get (props d) ''updatedAt'' = BDate (clock (last (first # rest)))"
proof -
  let ?d0 = "\<lparr>oid = generated first,
              props = set_fields [(''createdAt'', BDate (clock first))]
                        (set_fields (user_set (clock first) (sent first)) [(''email'', Prim e)])\<rparr>"
  let ?c1 = "c\<lparr>docs := docs c @ [?d0]\<rparr>"
  from assms(4) have e1: "body (sent first) ''email'' = e" by simp
  from assms(3) have fresh: "\<not> list_ex (matches (by_email e)) (docs c)"
    by (simp add: list_ex_iff matches_by_email)
  have step: "post_users (clock first) (generated first) (sent first) c = (user_reply True e, ?c1)"
    using post_users_idle [of c "sent first" "clock first" "generated first"] assms(1,2) e1 fresh
    by simp
  have d0_email: "get (props ?d0) ''email'' = Prim e"
    by (simp add: get_set_single get_user_set get_Cons)
  have d0_created: "get (props ?d0) ''createdAt'' = BDate (clock first)"
    by (simp add: get_set_single)
  have d0_set: "k \<in> {''name'', ''photo'', ''bio'', ''authProvider'', ''updatedAt''} \<Longrightarrow>
      get (props ?d0) k = get (set_fields (user_set (clock first) (sent first)) []) k" for k
    by (auto simp add: get_set_single get_user_set)
  have "\<exists>d'. post_users_all rest ?c1 =
            (replicate (length rest) (user_reply False e), ?c1\<lparr>docs := docs c @ [d']\<rparr>)
          \<and> oid d' = oid ?d0
          \<and> get (props d') ''email'' = Prim e
          \<and> get (props d') ''createdAt'' = get (props ?d0) ''createdAt''
          \<and> (if rest = [] then d' = ?d0
              else \<forall>k\<in>{''name'', ''photo'', ''bio'', ''authProvider'', ''updatedAt''}.
                     get (props d') k =
                     get (set_fields (user_set (clock (last rest)) (sent (last rest))) []) k)"
  proof (rule post_users_later [OF assms(2)])
    show "\<forall>x\<in>set rest. body (sent x) ''email'' = e" using assms(4) by simp
    show "pending ?c1 = []" using assms(1) by simp
    show "docs ?c1 = docs c @ [?d0]" by simp
    show "\<forall>x\<in>set (docs c). get (props x) ''email'' \<noteq> Prim e" by (rule assms(3))
    show "get (props ?d0) ''email'' = Prim e" by (rule d0_email)
  qed
  then obtain d' where rest: "post_users_all rest ?c1 =
            (replicate (length rest) (user_reply False e), ?c1\<lparr>docs := docs c @ [d']\<rparr>)"
      and em: "get (props d') ''email'' = Prim e"
      and cr: "get (props d') ''createdAt'' = get (props ?d0) ''createdAt''"
      and la: "if rest = [] then d' = ?d0
              else \<forall>k\<in>{''name'', ''photo'', ''bio'', ''authProvider'', ''updatedAt''}.
                     get (props d') k =
                     get (set_fields (user_set (clock (last rest)) (sent (last rest))) []) k"
    by blast
  have latest: "\<forall>k\<in>{''name'', ''photo'', ''bio'', ''authProvider'', ''updatedAt''}.
      get (props d') k =
      get (set_fields (user_set (clock (last (first # rest))) (sent (last (first # rest)))) []) k"
  proof (cases "rest = []")
    case True
    with la have "d' = ?d0" by simp
    with True d0_set show ?thesis by simp
  next
    case False
    with la show ?thesis by simp
  qed
  have "post_users_all (first # rest) c =
            (user_reply True e # replicate (length rest) (user_reply False e),
             c\<lparr>docs := docs c @ [d']\<rparr>)"
    by (simp add: step rest)
  moreover have "get (props d') ''createdAt'' = BDate (clock first)"
    using cr d0_created by simp
  moreover from latest have "get (props d') ''name''
      = Prim (default_to (JStr '''') (body (sent (last (first # rest))) ''name''))"
    by (simp add: get_user_set del: last.simps)
  moreover from latest have "get (props d') ''photo''
      = Prim (default_to (JStr '''') (body (sent (last (first # rest))) ''photo''))"
    by (simp add: get_user_set del: last.simps)
  moreover from latest have "get (props d') ''bio''
      = Prim (default_to (JStr '''') (body (sent (last (first # rest))) ''bio''))"
    by (simp add: get_user_set del: last.simps)
  moreover from latest have "get (props d') ''authProvider''
      = Prim (default_to (JStr ''password'') (body (sent (last (first # rest))) ''authProvider''))"
    by (simp add: get_user_set del: last.simps)
  moreover from latest have "get (props d') ''updatedAt'' = BDate (clock (last (first # rest)))"
    by (simp add: get_user_set del: last.simps)
  ultimately show ?thesis using em by blast
qed

theorem post_users_repeated_witness:
  "pending (idle []) = []
   \<and> truthy (JStr ''ann@x.com'')
   \<and> docs (idle []) = []
   \<and> body (sent first_call) ''email'' = JStr ''ann@x.com''
   \<and> body (sent second_call) ''email'' = JStr ''ann@x.com''
   \<and> (\<exists>d. post_users_all [first_call, second_call] (idle []) =
              ([user_reply True (JStr ''ann@x.com''), user_reply False (JStr ''ann@x.com'')],
               idle [d])
          \<and> get (props d) ''createdAt'' = BDate 5
          \<and> get (props d) ''name'' = Prim (JStr ''Ann B'')
          \<and> get (props d) ''photo'' = Prim (JStr '''')
          \<and> get (props d) ''updatedAt'' = BDate 9)"
proof -
  have h1: "pending (idle []) = []" by (simp add: idle_def)
  have h2: "truthy (JStr ''ann@x.com'')" by simp
  have h3: "\<forall>x\<in>set (docs (idle [])). get (props x) ''email'' \<noteq> Prim (JStr ''ann@x.com'')"
    by (simp add: idle_def)
  have h4: "\<forall>x\<in>set (first_call # [second_call]). body (sent x) ''email'' = JStr ''ann@x.com''"
    by (simp add: first_call_def second_call_def request_of_def json_object_def)
  from post_users_repeated [OF h1 h2 h3 h4] obtain d where
    run: "post_users_all (first_call # [second_call]) (idle []) =
            (user_reply True (JStr ''ann@x.com'')
               # replicate (length [second_call]) (user_reply False (JStr ''ann@x.com'')),
             (idle [])\<lparr>docs := docs (idle []) @ [d]\<rparr>)"
    and cr: "get (props d) ''createdAt'' = BDate (clock first_call)"
    and nm: "get (props d) ''name''
               = Prim (default_to (JStr '''') (body (sent (last (first_call # [second_call]))) ''name''))"
    and ph: "get (props d) ''photo''
               = Prim (default_to (JStr '''') (body (sent (last (first_call # [second_call]))) ''photo''))"
    and up: "get (props d) ''updatedAt'' = BDate (clock (last (first_call # [second_call])))"
    by blast
  from run have "post_users_all [first_call, second_call] (idle []) =
      ([user_reply True (JStr ''ann@x.com''), user_reply False (JStr ''ann@x.com'')], idle [d])"
    by (simp add: idle_def)
  moreover from cr have "get (props d) ''createdAt'' = BDate 5"
    by (simp add: first_call_def)
  moreover from nm have "get (props d) ''name'' = Prim (JStr ''Ann B'')"
    by (simp add: second_call_def request_of_def json_object_def default_to_def)
  moreover from ph have "get (props d) ''photo'' = Prim (JStr '''')"
    by (simp add: second_call_def request_of_def json_object_def default_to_def)
  moreover from up have "get (props d) ''updatedAt'' = BDate 9"
    by (simp add: second_call_def)
  moreover have "docs (idle []) = []" by (simp add: idle_def)
  moreover from h4 have "body (sent first_call) ''email'' = JStr ''ann@x.com''"
    and "body (sent second_call) ''email'' = JStr ''ann@x.com''" by simp_all
  ultimately show ?thesis using h1 h2 by blast
qed

section \<open>\<^verbatim>\<open>GET /users/:email\<close>\<close>

text \<open>
  C5. With a store that answers and a non-empty email in the path,
  \<^verbatim>\<open>GET /users/:email\<close> looks for the first document whose email is the given
  one; only when there is none does it look for the first whose email is the
  given one in lower case; when there is none either, the answer is 404. A
  document found is answered with 200 and exactly the seven fields \<^verbatim>\<open>name\<close>,
  \<^verbatim>\<open>email\<close>, \<^verbatim>\<open>photo\<close>, \<^verbatim>\<open>bio\<close>, \<^verbatim>\<open>authProvider\<close>, \<^verbatim>\<open>createdAt\<close>, \<^verbatim>\<open>updatedAt\<close> as
  the document has them; \<^verbatim>\<open>_id\<close> is not among them. The collection is left as
  it is.
\<close>

theorem get_users_email_lookup:
  assumes "pending c = []" and "params rq ''email'' \<noteq> []"
  shows "get_users_email rq c =
           (case find (matches (by_email (JStr (params rq ''email'')))) (docs c) of
              Some d \<Rightarrow> (reply 200 (user_projection d), c)
            | None \<Rightarrow>
                (case find (matches (by_email (JStr (toLowerCase (params rq ''email''))))) (docs c) of
                   Some d \<Rightarrow> (reply 200 (user_projection d), c)
                 | None \<Rightarrow> (reply 404 (error ''User not found''), c)))
         \<and> map fst (user_projection d) =
             [''name'', ''email'', ''photo'', ''bio'', ''authProvider'', ''createdAt'', ''updatedAt'']
         \<and> map snd (user_projection d) =
             map (get (props d))
               [''name'', ''email'', ''photo'', ''bio'', ''authProvider'', ''createdAt'', ''updatedAt'']
         \<and> ''_id'' \<notin> set (map fst (user_projection d))"
  using assms
  by (simp add: get_users_email_def findOne_idle by_email_def user_projection_def get_to_object
      split: option.splits)

theorem get_users_email_lookup_witness:
  "pending (idle [ann, bob]) = []
   \<and> params (request_of [(''email'', ''Bob@X.com'')] [] []) ''email'' \<noteq> []
   \<and> find (matches (by_email (JStr ''Bob@X.com''))) (docs (idle [ann, bob])) = None
   \<and> toLowerCase ''Bob@X.com'' = ''bob@x.com''
   \<and> get_users_email (request_of [(''email'', ''Bob@X.com'')] [] []) (idle [ann, bob]) =
        (reply 200
           [(''name'', Prim (JStr ''Bob'')), (''email'', Prim (JStr ''bob@x.com'')),
            (''photo'', Prim (JStr '''')), (''bio'', Prim (JStr '''')),
            (''authProvider'', Prim (JStr ''password'')), (''createdAt'', BDate 6),
            (''updatedAt'', BDate 7)], idle [ann, bob])
   \<and> get_users_email (request_of [(''email'', ''carol@x.com'')] [] []) (idle [ann, bob]) =
        (reply 404 (error ''User not found''), idle [ann, bob])"
proof -
  let ?rq = "request_of [(''email'', ''Bob@X.com'')] [] []"
  let ?rq' = "request_of [(''email'', ''carol@x.com'')] [] []"
  have h1: "pending (idle [ann, bob]) = []" by (simp add: idle_def)
  have h2: "params ?rq ''email'' \<noteq> []" by (simp add: request_of_def)
  have h2': "params ?rq' ''email'' \<noteq> []" by (simp add: request_of_def)
  have low: "toLowerCase ''Bob@X.com'' = ''bob@x.com''"
    by code_simp
  have low': "toLowerCase ''carol@x.com'' = ''carol@x.com''"
    by code_simp
  have exact: "find (matches (by_email (JStr ''Bob@X.com''))) (docs (idle [ann, bob])) = None"
    by (simp add: idle_def ann_def bob_def matches_by_email get_Cons get_Nil)
  have lower: "find (matches (by_email (JStr ''bob@x.com''))) (docs (idle [ann, bob])) = Some bob"
    by (simp add: idle_def ann_def matches_by_email get_Cons get_Nil)
       (simp add: bob_def get_Cons)
  have none: "find (matches (by_email (JStr ''carol@x.com''))) (docs (idle [ann, bob])) = None"
    by (simp add: idle_def ann_def bob_def matches_by_email get_Cons get_Nil)
  have pr: "user_projection bob =
           [(''name'', Prim (JStr ''Bob'')), (''email'', Prim (JStr ''bob@x.com'')),
            (''photo'', Prim (JStr '''')), (''bio'', Prim (JStr '''')),
            (''authProvider'', Prim (JStr ''password'')), (''createdAt'', BDate 6),
            (''updatedAt'', BDate 7)]"
    by (simp add: user_projection_def get_to_object bob_def get_Cons)
  from get_users_email_lookup [OF h1 h2, of bob] exact lower low pr
  have found: "get_users_email ?rq (idle [ann, bob]) =
        (reply 200
           [(''name'', Prim (JStr ''Bob'')), (''email'', Prim (JStr ''bob@x.com'')),
            (''photo'', Prim (JStr '''')), (''bio'', Prim (JStr '''')),
            (''authProvider'', Prim (JStr ''password'')), (''createdAt'', BDate 6),
            (''updatedAt'', BDate 7)], idle [ann, bob])"
    by (simp add: request_of_def)
  from get_users_email_lookup [OF h1 h2', of bob] none low'
  have missing: "get_users_email ?rq' (idle [ann, bob]) =
        (reply 404 (error ''User not found''), idle [ann, bob])"
    by (simp add: request_of_def)
  from h1 h2 exact low found missing show ?thesis by blast
qed

section \<open>\<^verbatim>\<open>GET /tasks\<close>\<close>

lemma find_sort_desc_limit_idle:
  "pending c = [] \<Longrightarrow> find_sort_desc_limit q k n c =
     (Inr (take n (rev (sort_key (\<lambda>d. sort_rank (get (props d) k))
                          (filter (matches q) (docs c))))), c)"
  by (simp add: find_sort_desc_limit_def next_outcome_idle)

lemma matches_tasks_filter: "matches (tasks_filter rq) d = selected rq d"
  by (auto simp add: matches_def tasks_filter_def selected_def get_opt_def get_to_object
      split: option.splits)

lemma get_normalize:
  "get (normalize d) k = (if k = ''_id'' then Prim (JStr (oid d)) else get (props d) k)"
proof -
  have "map_of (filter (\<lambda>(k, v). k \<noteq> ''_id'' \<and> k \<noteq> ''deadline'') fs) k = map_of fs k"
    if "k \<noteq> ''_id''" and "k \<noteq> ''deadline''" for fs :: fields
    using that by (induction fs) auto
  then show ?thesis
    by (simp add: normalize_def get_to_object get_Cons) (simp add: get_def to_object_def)
qed

lemma newest_first_sorted:
  "newest_first (rev (sort_key (\<lambda>d. sort_rank (get (props d) ''createdAt'')) xs))"
proof -
  have "sorted (map (\<lambda>d. sort_rank (get (props d) ''createdAt''))
                  (sort_key (\<lambda>d. sort_rank (get (props d) ''createdAt'')) xs))"
    by (rule sorted_sort_key)
  then show ?thesis
    by (simp add: newest_first_def sorted_wrt_rev sorted_map)
qed

text \<open>
  C6. With a store that answers, \<^verbatim>\<open>GET /tasks\<close> answers 200 with a list built
  as follows. The tasks taken are those that meet both query parameters,
  where a parameter that is absent (or empty) asks nothing, the email is
  compared in lower case with \<^verbatim>\<open>author.email\<close> and the category as it is with
  \<^verbatim>\<open>category\<close>. They are put in an order in which no task comes before one
  with a greater \<^verbatim>\<open>createdAt\<close>, and the first 100 are kept. Each is answered
  with \<^verbatim>\<open>_id\<close> as the string of its identifier and every other field as
  stored. The collection is left as it is.
\<close>

theorem get_tasks_listing:
  assumes "pending c = []"
  shows "\<exists>found. get_tasks rq c =
             (\<lparr>status = 200, json = Array (map normalize (take 100 found))\<rparr>, c)
           \<and> mset found = mset (filter (selected rq) (docs c))
           \<and> newest_first found
           \<and> newest_first (take 100 found)
           \<and> length (map normalize (take 100 found)) \<le> 100
           \<and> (\<forall>d k. get (normalize d) k =
                       (if k = ''_id'' then Prim (JStr (oid d)) else get (props d) k))"
proof -
  let ?found = "rev (sort_key (\<lambda>d. sort_rank (get (props d) ''createdAt''))
                       (filter (selected rq) (docs c)))"
  have flt: "filter (matches (tasks_filter rq)) (docs c) = filter (selected rq) (docs c)"
    by (simp add: matches_tasks_filter cong: filter_cong)
  have "get_tasks rq c = (\<lparr>status = 200, json = Array (map normalize (take 100 ?found))\<rparr>, c)"
    using assms by (simp add: get_tasks_def find_sort_desc_limit_idle flt)
  moreover have "mset ?found = mset (filter (selected rq) (docs c))"
    by simp
  moreover have nf: "newest_first ?found"
    by (rule newest_first_sorted)
  moreover from nf have "newest_first (take 100 ?found)"
    unfolding newest_first_def by (rule sorted_wrt_take)
  moreover have "length (map normalize (take 100 ?found)) \<le> 100"
    by simp
  ultimately show ?thesis
    using get_normalize by blast
qed

theorem get_tasks_listing_witness:
  "pending (idle [site_task, essay_task, logo_task]) = []
   \<and> filter (selected (request_of [] [(''email'', ''Owner@X.com'')] []))
        (docs (idle [site_task, essay_task, logo_task])) = [site_task, logo_task]
   \<and> (\<exists>found. get_tasks (request_of [] [(''email'', ''Owner@X.com'')] [])
                   (idle [site_task, essay_task, logo_task]) =
                 (\<lparr>status = 200, json = Array (map normalize (take 100 found))\<rparr>,
                  idle [site_task, essay_task, logo_task])
              \<and> mset found = mset [site_task, logo_task]
              \<and> newest_first found)
   \<and> get_tasks (request_of [] [(''email'', ''Owner@X.com'')] [])
        (idle [site_task, essay_task, logo_task]) =
      (\<lparr>status = 200, json = Array [normalize logo_task, normalize site_task]\<rparr>,
       idle [site_task, essay_task, logo_task])
   \<and> get (normalize logo_task) ''_id'' = Prim (JStr ''507f1f77bcf86cd799439013'')
   \<and> get (normalize logo_task) ''budget'' = Prim (JNum (Fin 80))"
proof -
  let ?rq = "request_of [] [(''email'', ''Owner@X.com'')] []"
  let ?c = "idle [site_task, essay_task, logo_task]"
  have h: "pending ?c = []" by (simp add: idle_def)
  have sel: "filter (selected ?rq) (docs ?c) = [site_task, logo_task]"
    by code_simp
  have run: "get_tasks ?rq ?c =
      (\<lparr>status = 200, json = Array [normalize logo_task, normalize site_task]\<rparr>, ?c)"
    by code_simp
  from get_tasks_listing [OF h, of ?rq] sel
  obtain found where
    "get_tasks ?rq ?c = (\<lparr>status = 200, json = Array (map normalize (take 100 found))\<rparr>, ?c)"
    and "mset found = mset [site_task, logo_task]" and "newest_first found"
    and n: "\<forall>d k. get (normalize d) k = (if k = ''_id'' then Prim (JStr (oid d)) else get (props d) k)"
    by auto
  moreover from n have "get (normalize logo_task) ''_id'' = Prim (JStr ''507f1f77bcf86cd799439013'')"
    by (simp add: logo_task_def task_doc_def)
  moreover from n have "get (normalize logo_task) ''budget'' = Prim (JNum (Fin 80))"
    by (simp add: logo_task_def task_doc_def get_Cons)
  ultimately show ?thesis using h sel run by blast
qed

section \<open>The task handlers: common facts\<close>

lemma matches_by_id: "matches (by_id i) d \<longleftrightarrow> oid d = i"
  by (simp add: matches_def by_id_def get_opt_def get_to_object)

lemma find_Some_split:
  "find p xs = Some x \<Longrightarrow> \<exists>ys zs. xs = ys @ x # zs \<and> p x \<and> (\<forall>y\<in>set ys. \<not> p y)"
proof (induction xs)
  case Nil
  then show ?case by simp
next
  case (Cons a xs)
  show ?case
  proof (cases "p a")
    case True
    with Cons.prems have "a = x" by simp
    with True have "a # xs = [] @ x # xs \<and> p x \<and> (\<forall>y\<in>set []. \<not> p y)" by simp
    then show ?thesis by blast
  next
    case False
    with Cons obtain ys zs where "xs = ys @ x # zs" "p x" "\<forall>y\<in>set ys. \<not> p y" by auto
    with False have "a # xs = (a # ys) @ x # zs \<and> p x \<and> (\<forall>y\<in>set (a # ys). \<not> p y)" by simp
    then show ?thesis by blast
  qed
qed

lemma next_outcome_docs: "next_outcome c = (f, c') \<Longrightarrow> docs c' = docs c"
  by (auto simp add: next_outcome_def split: list.splits)

lemma findOne_result:
  assumes "findOne q c = (x, c')"
  shows "docs c' = docs c \<and> (x = Inr (find (matches q) (docs c)) \<or> (\<exists>e. x = Inl e))"
proof -
  obtain f c1 where n: "next_outcome c = (f, c1)" by (cases "next_outcome c")
  then have "docs c1 = docs c" by (rule next_outcome_docs)
  with assms n show ?thesis
    by (cases f) (auto simp add: findOne_def)
qed

lemma updateOne_result:
  assumes "updateOne q s i False newid c = (x, c')"
  shows "(\<exists>e. x = Inl e \<and> docs c' = docs c)
       \<or> (x = Inr \<lparr>matchedCount = 0, upsertedCount = 0\<rparr> \<and> docs c' = docs c)
       \<or> (x = Inr \<lparr>matchedCount = 1, upsertedCount = 0\<rparr> \<and> list_ex (matches q) (docs c)
           \<and> docs c' = update_first (matches q) (\<lambda>d. d\<lparr>props := set_fields s (props d)\<rparr>) (docs c))"
proof -
  obtain f c1 where n: "next_outcome c = (f, c1)" by (cases "next_outcome c")
  then have "docs c1 = docs c" by (rule next_outcome_docs)
  with assms n show ?thesis
    by (cases f) (auto simp add: updateOne_def split: if_splits)
qed

lemma author_email_eq:
  "e \<noteq> [] \<Longrightarrow> author_email d = Prim (JStr e) \<longleftrightarrow> stored_author_email d = Prim (JStr e)"
  by (cases "stored_author_email d")
     (auto simp add: author_email_def stored_author_email_def bson_or_def get_to_object)

lemma patch_tasks_id_success:
  assumes "patch_tasks_id P now rq c = (r, c')" and "status r = 200"
  shows "\<exists>i existing t.
           new_ObjectId (params rq ''id'') = Some i
         \<and> find (matches (by_id i)) (docs c) = Some existing
         \<and> caller_email rq \<noteq> []
         \<and> stored_author_email existing = Prim (JStr (caller_email rq))
         \<and> body_accepted P rq
         \<and> new_Date P (body rq ''deadline'') = Some t
         \<and> r = reply 200 [(''ok'', Prim (JBool True)), (''id'', Prim (JStr i))]
         \<and> docs c' = update_first (matches (by_id i))
                        (\<lambda>d. d\<lparr>props := set_fields (task_set P now rq t) (props d)\<rparr>) (docs c)"
proof -
  let ?email = "caller_email rq"
  from assms have ne: "?email \<noteq> []"
    by (auto simp add: patch_tasks_id_def caller_email_def reply_def Let_def)
  from assms ne obtain i where i: "new_ObjectId (params rq ''id'') = Some i"
    by (cases "new_ObjectId (params rq ''id'')")
       (auto simp add: patch_tasks_id_def caller_email_def reply_def Let_def)
  obtain x c1 where f: "findOne (by_id i) c = (x, c1)" by (cases "findOne (by_id i) c")
  from findOne_result [OF f] have d1: "docs c1 = docs c"
    and x: "x = Inr (find (matches (by_id i)) (docs c)) \<or> (\<exists>e. x = Inl e)" by auto
  from assms ne i f obtain existing where ex: "x = Inr (Some existing)"
    by (cases x; cases "projr x")
       (auto simp add: patch_tasks_id_def caller_email_def reply_def Let_def by_id_def
          internal_server_error_def)
  with x have found: "find (matches (by_id i)) (docs c) = Some existing" by auto
  from assms ne i f ex have own: "author_email existing = Prim (JStr ?email)"
    by (auto simp add: patch_tasks_id_def caller_email_def reply_def Let_def by_id_def
          split: if_splits)
  from assms ne i f ex own have acc: "text_fields_accepted P rq \<and> \<not> budget_rejected rq"
    by (auto simp add: patch_tasks_id_def caller_email_def reply_def Let_def by_id_def
          text_fields_accepted_def budget_rejected_def split: if_splits)
  from assms ne i f ex own acc obtain t where t: "new_Date P (body rq ''deadline'') = Some t"
    by (cases "new_Date P (body rq ''deadline'')")
       (auto simp add: patch_tasks_id_def caller_email_def reply_def Let_def by_id_def
          text_fields_accepted_def budget_rejected_def split: if_splits)
  obtain y c2 where u: "updateOne (by_id i) (task_set P now rq t) [] False [] c1 = (y, c2)"
    by (cases "updateOne (by_id i) (task_set P now rq t) [] False [] c1")
  from assms ne i f ex own acc t u
  have res: "(case y of Inl e \<Rightarrow> (internal_server_error, c2)
              | Inr u \<Rightarrow> if matchedCount u = 0 then (reply 404 (error ''Task not found''), c2)
                         else (reply 200 [(''ok'', Prim (JBool True)), (''id'', Prim (JStr i))], c2))
             = (r, c')"
    by (simp add: patch_tasks_id_def caller_email_def Let_def by_id_def
          text_fields_accepted_def budget_rejected_def task_set_def)
  from updateOne_result [OF u] res assms(2) d1
  have "r = reply 200 [(''ok'', Prim (JBool True)), (''id'', Prim (JStr i))]
        \<and> docs c' = update_first (matches (by_id i))
                        (\<lambda>d. d\<lparr>props := set_fields (task_set P now rq t) (props d)\<rparr>) (docs c)"
    by (auto simp add: reply_def internal_server_error_def)
  with i found ne own acc t show ?thesis
    by (auto simp add: body_accepted_def author_email_eq)
qed

lemma deleteOne_result:
  assumes "deleteOne q c = (x, c')"
  shows "(\<exists>e. x = Inl e \<and> docs c' = docs c)
       \<or> (x = Inr 0 \<and> docs c' = docs c)
       \<or> (x = Inr 1 \<and> list_ex (matches q) (docs c)
           \<and> docs c' = remove_first (matches q) (docs c))"
proof -
  obtain f c1 where n: "next_outcome c = (f, c1)" by (cases "next_outcome c")
  then have "docs c1 = docs c" by (rule next_outcome_docs)
  with assms n show ?thesis
    by (cases f) (auto simp add: deleteOne_def split: if_splits)
qed

lemma patch_tasks_id_unchanged:
  assumes "patch_tasks_id P now rq c = (r, c')" and "status r \<noteq> 200"
  shows "docs c' = docs c"
proof (cases "caller_email rq = []")
  case True
  with assms show ?thesis
    by (simp add: patch_tasks_id_def caller_email_def Let_def)
next
  case ne: False
  show ?thesis
  proof (cases "new_ObjectId (params rq ''id'')")
    case None
    with assms ne show ?thesis
      by (simp add: patch_tasks_id_def caller_email_def Let_def)
  next
    case (Some i)
    obtain x c1 where f: "findOne (by_id i) c = (x, c1)" by (cases "findOne (by_id i) c")
    from findOne_result [OF f] have d1: "docs c1 = docs c" by simp
    show ?thesis
    proof (cases "\<exists>t. body_accepted P rq \<and> new_Date P (body rq ''deadline'') = Some t
                     \<and> (\<exists>existing. x = Inr (Some existing)
                           \<and> author_email existing = Prim (JStr (caller_email rq)))")
      case False
      with assms ne Some f have "c' = c1"
        by (auto simp add: patch_tasks_id_def caller_email_def Let_def by_id_def
            body_accepted_def text_fields_accepted_def budget_rejected_def
            split: sum.splits option.splits if_splits)
      with d1 show ?thesis by simp
    next
      case True
      then obtain t existing where acc: "body_accepted P rq"
        and t: "new_Date P (body rq ''deadline'') = Some t"
        and ex: "x = Inr (Some existing)"
        and own: "author_email existing = Prim (JStr (caller_email rq))"
        by blast
      obtain y c2 where u: "updateOne (by_id i) (task_set P now rq t) [] False [] c1 = (y, c2)"
        by (cases "updateOne (by_id i) (task_set P now rq t) [] False [] c1")
      from assms ne Some f ex own acc t u
      have res: "(case y of Inl e \<Rightarrow> (internal_server_error, c2)
              | Inr u \<Rightarrow> if matchedCount u = 0 then (reply 404 (error ''Task not found''), c2)
                         else (reply 200 [(''ok'', Prim (JBool True)), (''id'', Prim (JStr i))], c2))
             = (r, c')"
        by (simp add: patch_tasks_id_def caller_email_def Let_def by_id_def body_accepted_def
            text_fields_accepted_def budget_rejected_def task_set_def)
      from updateOne_result [OF u] res assms(2) d1 show ?thesis
        by (auto simp add: reply_def)
    qed
  qed
qed

lemma delete_tasks_id_cases:
  assumes "delete_tasks_id rq c = (r, c')"
  shows "(status r \<noteq> 200 \<and> docs c' = docs c)
       \<or> (\<exists>i task. caller_email rq \<noteq> []
             \<and> new_ObjectId (params rq ''id'') = Some i
             \<and> find (matches (by_id i)) (docs c) = Some task
             \<and> stored_author_email task = Prim (JStr (caller_email rq))
             \<and> r = reply 200 [(''ok'', Prim (JBool True)), (''id'', Prim (JStr (params rq ''id'')))]
             \<and> docs c' = remove_first (matches (by_id i)) (docs c))"
proof (cases "caller_email rq = []")
  case True
  with assms show ?thesis
    by (auto simp add: delete_tasks_id_def caller_email_def Let_def reply_def)
next
  case ne: False
  show ?thesis
  proof (cases "new_ObjectId (params rq ''id'')")
    case None
    with assms ne show ?thesis
      by (auto simp add: delete_tasks_id_def caller_email_def Let_def reply_def)
  next
    case (Some i)
    obtain x c1 where f: "findOne (by_id i) c = (x, c1)" by (cases "findOne (by_id i) c")
    from findOne_result [OF f] have d1: "docs c1 = docs c"
      and x: "x = Inr (find (matches (by_id i)) (docs c)) \<or> (\<exists>e. x = Inl e)" by auto
    show ?thesis
    proof (cases "\<exists>task. x = Inr (Some task) \<and> author_email task = Prim (JStr (caller_email rq))")
      case False
      with assms ne Some f have "c' = c1 \<and> status r \<noteq> 200"
        by (auto simp add: delete_tasks_id_def caller_email_def Let_def by_id_def reply_def
            internal_server_error_def split: sum.splits option.splits if_splits)
      with d1 show ?thesis by simp
    next
      case True
      then obtain task where ex: "x = Inr (Some task)"
        and own: "author_email task = Prim (JStr (caller_email rq))" by blast
      obtain y c2 where u: "deleteOne (by_id i) c1 = (y, c2)" by (cases "deleteOne (by_id i) c1")
      from assms ne Some f ex own u
      have res: "(case y of Inl e \<Rightarrow> (internal_server_error, c2)
              | Inr n \<Rightarrow> if n = 0 then (reply 500 (error ''Failed to delete task''), c2)
                         else (reply 200 [(''ok'', Prim (JBool True)),
                                          (''id'', Prim (JStr (params rq ''id'')))], c2))
             = (r, c')"
        by (simp add: delete_tasks_id_def caller_email_def Let_def by_id_def)
      from ex x have found: "find (matches (by_id i)) (docs c) = Some task" by auto
      from deleteOne_result [OF u] res d1 ne Some found own show ?thesis
        by (auto simp add: reply_def internal_server_error_def author_email_eq)
    qed
  qed
qed

text \<open>The two handlers on a task that is there, with a store that answers.\<close>

lemma delete_tasks_id_idle:
  assumes "pending c = []" and "caller_email rq \<noteq> []"
    and "new_ObjectId (params rq ''id'') = Some i"
    and "docs c = before @ task # after" and "oid task = i" and "\<forall>x\<in>set before. oid x \<noteq> i"
  shows "delete_tasks_id rq c =
           (if stored_author_email task = Prim (JStr (caller_email rq))
            then (reply 200 [(''ok'', Prim (JBool True)), (''id'', Prim (JStr (params rq ''id'')))],
                  c\<lparr>docs := before @ after\<rparr>)
            else (reply 403 (error ''Not allowed to delete this task''), c))"
proof -
  from assms(4-6) have found: "find (matches (by_id i)) (docs c) = Some task"
    by (simp add: find_at matches_by_id)
  from assms(4-6) have ex: "list_ex (matches (by_id i)) (docs c)"
    by (simp add: list_ex_iff matches_by_id)
  from assms(4-6) have rm: "remove_first (matches (by_id i)) (docs c) = before @ after"
    by (simp add: remove_first_at matches_by_id)
  have f: "findOne [([''_id''], ObjectId i)] c = (Inr (Some task), c)"
    using findOne_idle [OF assms(1), of "by_id i"] found by (simp add: by_id_def)
  have d: "deleteOne [([''_id''], ObjectId i)] c = (Inr 1, c\<lparr>docs := before @ after\<rparr>)"
    using deleteOne_idle [OF assms(1), of "by_id i"] ex rm by (simp add: by_id_def)
  from assms(2,3) f d show ?thesis
    using author_email_eq [OF assms(2), of task]
    by (simp add: delete_tasks_id_def caller_email_def Let_def)
qed

lemma patch_tasks_id_idle:
  assumes "pending c = []" and "caller_email rq \<noteq> []"
    and "new_ObjectId (params rq ''id'') = Some i"
    and "docs c = before @ task # after" and "oid task = i" and "\<forall>x\<in>set before. oid x \<noteq> i"
  shows "stored_author_email task \<noteq> Prim (JStr (caller_email rq)) \<Longrightarrow>
           patch_tasks_id P now rq c = (reply 403 (error ''Not allowed to update this task''), c)"
    and "stored_author_email task = Prim (JStr (caller_email rq)) \<Longrightarrow> body_accepted P rq \<Longrightarrow>
           new_Date P (body rq ''deadline'') = Some t \<Longrightarrow>
           patch_tasks_id P now rq c =
             (reply 200 [(''ok'', Prim (JBool True)), (''id'', Prim (JStr i))],
              c\<lparr>docs := before @ task\<lparr>props := set_fields (task_set P now rq t) (props task)\<rparr> # after\<rparr>)"
proof -
  from assms(4-6) have found: "find (matches (by_id i)) (docs c) = Some task"
    by (simp add: find_at matches_by_id)
  from assms(4-6) have ex: "list_ex (matches (by_id i)) (docs c)"
    by (simp add: list_ex_iff matches_by_id)
  have f: "findOne [([''_id''], ObjectId i)] c = (Inr (Some task), c)"
    using findOne_idle [OF assms(1), of "by_id i"] found by (simp add: by_id_def)
  show "patch_tasks_id P now rq c = (reply 403 (error ''Not allowed to update this task''), c)"
    if "stored_author_email task \<noteq> Prim (JStr (caller_email rq))"
    using that assms(2,3) f author_email_eq [OF assms(2), of task]
    by (simp add: patch_tasks_id_def caller_email_def Let_def)
  show "patch_tasks_id P now rq c =
             (reply 200 [(''ok'', Prim (JBool True)), (''id'', Prim (JStr i))],
              c\<lparr>docs := before @ task\<lparr>props := set_fields (task_set P now rq t) (props task)\<rparr> # after\<rparr>)"
    if own: "stored_author_email task = Prim (JStr (caller_email rq))"
      and acc: "body_accepted P rq" and t: "new_Date P (body rq ''deadline'') = Some t"
  proof -
    from assms(4-6)
    have up: "update_first (matches (by_id i))
                (\<lambda>d. d\<lparr>props := set_fields (task_set P now rq t) (props d)\<rparr>) (docs c)
              = before @ task\<lparr>props := set_fields (task_set P now rq t) (props task)\<rparr> # after"
      by (simp add: update_first_at matches_by_id)
    have u: "updateOne [([''_id''], ObjectId i)] (task_set P now rq t) [] False [] c =
               (Inr \<lparr>matchedCount = 1, upsertedCount = 0\<rparr>,
                c\<lparr>docs := before @ task\<lparr>props := set_fields (task_set P now rq t) (props task)\<rparr> # after\<rparr>)"
      using updateOne_idle [OF assms(1), of "by_id i"] ex up by (simp add: by_id_def)
    from own acc t assms(2,3) f u author_email_eq [OF assms(2), of task] show ?thesis
      by (simp add: patch_tasks_id_def caller_email_def Let_def body_accepted_def
          text_fields_accepted_def budget_rejected_def task_set_def)
  qed
qed

section \<open>\<^verbatim>\<open>PATCH /tasks/:id\<close>: what is replaced\<close>

lemma get_task_set:
  "get (set_fields (task_set P now rq t) fs) k =
     (if k = ''title'' then Prim (JStr (trim (String P (body rq ''title''))))
      else if k = ''category'' then Prim (body rq ''category'')
      else if k = ''description'' then Prim (JStr (trim (String P (body rq ''description''))))
      else if k = ''deadline'' then BDate t
      else if k = ''budget'' then Prim (JNum (Number (body rq ''budget'')))
      else if k = ''updatedAt'' then BDate now
      else get fs k)"
  by (simp add: get_set_fields task_set_def)

text \<open>
  C7. Whenever \<^verbatim>\<open>PATCH /tasks/:id\<close> answers 200, the collection differs from
  the one before in one document only, the first with the identifier of the
  path. In it \<^verbatim>\<open>title\<close> and \<^verbatim>\<open>description\<close> are the trimmed strings of the
  body's, \<^verbatim>\<open>category\<close> is the body's, \<^verbatim>\<open>deadline\<close> is the date parsed from the
  body's, \<^verbatim>\<open>budget\<close> is the number coerced from the body's and \<^verbatim>\<open>updatedAt\<close> is
  the clock; the identifier and every other field (\<^verbatim>\<open>status\<close>, \<^verbatim>\<open>author\<close>,
  \<^verbatim>\<open>createdAt\<close>, \<^verbatim>\<open>bidsCount\<close> and any further one) are as they were.
\<close>

theorem patch_tasks_id_frame:
  assumes "patch_tasks_id P now rq c = (r, c')" and "status r = 200"
  shows "\<exists>i t before existing after updated.
           new_ObjectId (params rq ''id'') = Some i
         \<and> new_Date P (body rq ''deadline'') = Some t
         \<and> docs c = before @ existing # after
         \<and> oid existing = i \<and> (\<forall>x\<in>set before. oid x \<noteq> i)
         \<and> docs c' = before @ updated # after
         \<and> oid updated = i
         \<and> get (props updated) ''title'' = Prim (JStr (trim (String P (body rq ''title''))))
         \<and> get (props updated) ''category'' = Prim (body rq ''category'')
         \<and> get (props updated) ''description''
              = Prim (JStr (trim (String P (body rq ''description''))))
         \<and> get (props updated) ''deadline'' = BDate t
         \<and> get (props updated) ''budget'' = Prim (JNum (Number (body rq ''budget'')))
         \<and> get (props updated) ''updatedAt'' = BDate now
         \<and> (\<forall>k. k \<notin> {''title'', ''category'', ''description'', ''deadline'', ''budget'',
                       ''updatedAt''}
                \<longrightarrow> get (props updated) k = get (props existing) k)"
proof -
  from patch_tasks_id_success [OF assms] obtain i existing t where
    i: "new_ObjectId (params rq ''id'') = Some i"
    and found: "find (matches (by_id i)) (docs c) = Some existing"
    and t: "new_Date P (body rq ''deadline'') = Some t"
    and upd: "docs c' = update_first (matches (by_id i))
                (\<lambda>d. d\<lparr>props := set_fields (task_set P now rq t) (props d)\<rparr>) (docs c)"
    by blast
  from find_Some_split [OF found] obtain before after where
    split: "docs c = before @ existing # after"
    and own: "matches (by_id i) existing"
    and first: "\<forall>y\<in>set before. \<not> matches (by_id i) y"
    by blast
  let ?updated = "existing\<lparr>props := set_fields (task_set P now rq t) (props existing)\<rparr>"
  from upd split own first have "docs c' = before @ ?updated # after"
    by (simp add: update_first_at)
  moreover from own have "oid existing = i" by (simp add: matches_by_id)
  moreover from first have "\<forall>x\<in>set before. oid x \<noteq> i" by (simp add: matches_by_id)
  moreover have "\<forall>k. k \<notin> {''title'', ''category'', ''description'', ''deadline'', ''budget'',
                       ''updatedAt''}
                \<longrightarrow> get (props ?updated) k = get (props existing) k"
    by (simp add: get_task_set)
  moreover have "get (props ?updated) ''title'' = Prim (JStr (trim (String P (body rq ''title''))))"
    and "get (props ?updated) ''category'' = Prim (body rq ''category'')"
    and "get (props ?updated) ''description''
           = Prim (JStr (trim (String P (body rq ''description''))))"
    and "get (props ?updated) ''deadline'' = BDate t"
    and "get (props ?updated) ''budget'' = Prim (JNum (Number (body rq ''budget'')))"
    and "get (props ?updated) ''updatedAt'' = BDate now"
    by (simp_all add: get_task_set)
  moreover have "oid ?updated = oid existing" by simp
  ultimately show ?thesis using i t split by blast
qed

theorem patch_tasks_id_frame_witness:
  "status (fst (patch_tasks_id engine 5000 shop_patch (idle [essay_task, site_task]))) = 200
   \<and> (\<exists>updated.
         docs (snd (patch_tasks_id engine 5000 shop_patch (idle [essay_task, site_task])))
           = [essay_task, updated]
       \<and> oid updated = oid site_task
       \<and> get (props updated) ''title'' = Prim (JStr ''Shop'')
       \<and> get (props updated) ''budget'' = Prim (JNum (Fin (401 / 2)))
       \<and> get (props updated) ''updatedAt'' = BDate 5000
       \<and> get (props updated) ''status'' = Prim (JStr ''open'')
       \<and> get (props updated) ''author'' = get (props site_task) ''author''
       \<and> get (props updated) ''createdAt'' = BDate 1000
       \<and> get (props updated) ''bidsCount'' = get (props site_task) ''bidsCount'')"
proof -
  let ?c = "idle [essay_task, site_task]"
  let ?run = "patch_tasks_id engine 5000 shop_patch ?c"
  have h1: "?run = (fst ?run, snd ?run)" by simp
  have h2: "status (fst ?run) = 200" by code_simp
  have id: "new_ObjectId (params shop_patch ''id'') = Some ''507f1f77bcf86cd799439011''"
    by code_simp
  from patch_tasks_id_frame [OF h1 h2] id obtain t before existing after updated where
    split: "docs ?c = before @ existing # after"
    and e: "oid existing = ''507f1f77bcf86cd799439011''"
    and b: "\<forall>x\<in>set before. oid x \<noteq> ''507f1f77bcf86cd799439011''"
    and after: "docs (snd ?run) = before @ updated # after"
    and u: "oid updated = ''507f1f77bcf86cd799439011''"
    and title: "get (props updated) ''title'' = Prim (JStr (trim (String engine (body shop_patch ''title''))))"
    and budget: "get (props updated) ''budget'' = Prim (JNum (Number (body shop_patch ''budget'')))"
    and upd: "get (props updated) ''updatedAt'' = BDate 5000"
    and frame: "\<forall>k. k \<notin> {''title'', ''category'', ''description'', ''deadline'', ''budget'',
                       ''updatedAt''}
                \<longrightarrow> get (props updated) k = get (props existing) k"
    by auto
  have o1: "oid essay_task \<noteq> ''507f1f77bcf86cd799439011''"
    by (simp add: essay_task_def task_doc_def)
  have o2: "oid site_task = ''507f1f77bcf86cd799439011''"
    by (simp add: site_task_def task_doc_def)
  from split have l: "[essay_task, site_task] = before @ existing # after"
    by (simp add: idle_def)
  with e b o1 have where_: "before = [essay_task] \<and> existing = site_task \<and> after = []"
    by (auto simp add: Cons_eq_append_conv)
  have "docs (snd ?run) = [essay_task, updated]" using after where_ by simp
  moreover have "oid updated = oid site_task" using u o2 by simp
  moreover have "get (props updated) ''title'' = Prim (JStr ''Shop'')"
  proof -
    have "trim (String engine (body shop_patch ''title'')) = ''Shop''" by code_simp
    with title show ?thesis by simp
  qed
  moreover have "get (props updated) ''budget'' = Prim (JNum (Fin (401 / 2)))"
  proof -
    have "Number (body shop_patch ''budget'') = Fin (401 / 2)" by code_simp
    with budget show ?thesis by simp
  qed
  moreover from frame where_ have "get (props updated) ''status'' = get (props site_task) ''status''"
    and "get (props updated) ''author'' = get (props site_task) ''author''"
    and "get (props updated) ''createdAt'' = get (props site_task) ''createdAt''"
    and "get (props updated) ''bidsCount'' = get (props site_task) ''bidsCount''"
    by simp_all
  moreover have "get (props site_task) ''status'' = Prim (JStr ''open'')"
    and "get (props site_task) ''createdAt'' = BDate 1000"
    by (simp_all add: site_task_def task_doc_def get_Cons)
  ultimately show ?thesis using h2 upd by simp
qed

section \<open>\<^verbatim>\<open>PATCH\<close> and \<^verbatim>\<open>DELETE /tasks/:id\<close>: the author only\<close>

text \<open>
  C1, as the code has it. Take a store that answers, and a request whose path
  identifier is that of a stored task. When the email of the query string is
  absent or empty, \<^verbatim>\<open>DELETE\<close> and \<^verbatim>\<open>PATCH\<close> answer 400 and leave the
  collection as it is. When it is not empty and, in lower case, differs from
  the stored \<^verbatim>\<open>author.email\<close>, both answer 403 and leave the collection as it
  is. When it equals the stored \<^verbatim>\<open>author.email\<close>, \<^verbatim>\<open>DELETE\<close> answers 200 and
  the task is gone, and \<^verbatim>\<open>PATCH\<close> with a body that passes its checks answers
  200 and the task has the fields of the body.
\<close>

theorem owner_gate:
  assumes "pending c = []"
    and "new_ObjectId (params rq ''id'') = Some i"
    and "docs c = before @ task # after" and "oid task = i" and "\<forall>x\<in>set before. oid x \<noteq> i"
  shows "(caller_email rq = [] \<longrightarrow>
            delete_tasks_id rq c = (reply 400 (error ''Email is required''), c)
          \<and> patch_tasks_id P now rq c = (reply 400 (error ''Email is required''), c))
       \<and> (caller_email rq \<noteq> [] \<and> stored_author_email task \<noteq> Prim (JStr (caller_email rq)) \<longrightarrow>
            delete_tasks_id rq c = (reply 403 (error ''Not allowed to delete this task''), c)
          \<and> patch_tasks_id P now rq c = (reply 403 (error ''Not allowed to update this task''), c))
       \<and> (caller_email rq \<noteq> [] \<and> stored_author_email task = Prim (JStr (caller_email rq)) \<longrightarrow>
            delete_tasks_id rq c =
              (reply 200 [(''ok'', Prim (JBool True)), (''id'', Prim (JStr (params rq ''id'')))],
               c\<lparr>docs := before @ after\<rparr>)
          \<and> (\<forall>t. body_accepted P rq \<and> new_Date P (body rq ''deadline'') = Some t \<longrightarrow>
                patch_tasks_id P now rq c =
                  (reply 200 [(''ok'', Prim (JBool True)), (''id'', Prim (JStr i))],
                   c\<lparr>docs := before
                        @ task\<lparr>props := set_fields (task_set P now rq t) (props task)\<rparr> # after\<rparr>)))"
proof -
  have "delete_tasks_id rq c = (reply 400 (error ''Email is required''), c)
        \<and> patch_tasks_id P now rq c = (reply 400 (error ''Email is required''), c)"
    if "caller_email rq = []"
    using that by (simp add: delete_tasks_id_def patch_tasks_id_def caller_email_def Let_def)
  moreover have "delete_tasks_id rq c = (reply 403 (error ''Not allowed to delete this task''), c)
          \<and> patch_tasks_id P now rq c = (reply 403 (error ''Not allowed to update this task''), c)"
    if "caller_email rq \<noteq> []" and "stored_author_email task \<noteq> Prim (JStr (caller_email rq))"
    using that delete_tasks_id_idle [OF assms(1) that(1) assms(2-5)]
      patch_tasks_id_idle(1) [OF assms(1) that(1) assms(2-5)] by simp
  moreover have "delete_tasks_id rq c =
              (reply 200 [(''ok'', Prim (JBool True)), (''id'', Prim (JStr (params rq ''id'')))],
               c\<lparr>docs := before @ after\<rparr>)
          \<and> (\<forall>t. body_accepted P rq \<and> new_Date P (body rq ''deadline'') = Some t \<longrightarrow>
                patch_tasks_id P now rq c =
                  (reply 200 [(''ok'', Prim (JBool True)), (''id'', Prim (JStr i))],
                   c\<lparr>docs := before
                        @ task\<lparr>props := set_fields (task_set P now rq t) (props task)\<rparr> # after\<rparr>))"
    if "caller_email rq \<noteq> []" and "stored_author_email task = Prim (JStr (caller_email rq))"
    using that delete_tasks_id_idle [OF assms(1) that(1) assms(2-5)]
      patch_tasks_id_idle(2) [OF assms(1) that(1) assms(2-5) that(2)] by simp
  ultimately show ?thesis by blast
qed

theorem owner_gate_witness:
  "pending (idle [essay_task, site_task]) = []
   \<and> new_ObjectId (params other_request ''id'') = Some ''507f1f77bcf86cd799439011''
   \<and> docs (idle [essay_task, site_task]) = [essay_task] @ site_task # []
   \<and> oid site_task = ''507f1f77bcf86cd799439011''
   \<and> oid essay_task \<noteq> ''507f1f77bcf86cd799439011''
   \<and> stored_author_email site_task = Prim (JStr ''owner@x.com'')
   \<and> caller_email other_request = ''other@x.com''
   \<and> delete_tasks_id other_request (idle [essay_task, site_task])
        = (reply 403 (error ''Not allowed to delete this task''), idle [essay_task, site_task])
   \<and> patch_tasks_id engine 5000 other_request (idle [essay_task, site_task])
        = (reply 403 (error ''Not allowed to update this task''), idle [essay_task, site_task])
   \<and> caller_email shop_patch = ''owner@x.com''
   \<and> body_accepted engine shop_patch
   \<and> new_Date engine (body shop_patch ''deadline'') = Some 1740787200000
   \<and> delete_tasks_id shop_patch (idle [essay_task, site_task])
        = (reply 200 [(''ok'', Prim (JBool True)), (''id'', Prim (JStr ''507f1f77bcf86cd799439011''))],
           idle [essay_task])
   \<and> patch_tasks_id engine 5000 shop_patch (idle [essay_task, site_task])
        = (reply 200 [(''ok'', Prim (JBool True)), (''id'', Prim (JStr ''507f1f77bcf86cd799439011''))],
           idle [essay_task,
                 site_task\<lparr>props := set_fields (task_set engine 5000 shop_patch 1740787200000)
                                       (props site_task)\<rparr>])
   \<and> caller_email empty_email_request = []
   \<and> delete_tasks_id empty_email_request (idle [essay_task, site_task])
        = (reply 400 (error ''Email is required''), idle [essay_task, site_task])"
proof -
  let ?c = "idle [essay_task, site_task]"
  let ?i = "''507f1f77bcf86cd799439011''"
  have h1: "pending ?c = []" by (simp add: idle_def)
  have h2: "new_ObjectId (params other_request ''id'') = Some ?i" by code_simp
  have h2': "new_ObjectId (params shop_patch ''id'') = Some ?i" by code_simp
  have h2'': "new_ObjectId (params empty_email_request ''id'') = Some ?i" by code_simp
  have h3: "docs ?c = [essay_task] @ site_task # []" by (simp add: idle_def)
  have h4: "oid site_task = ?i" by (simp add: site_task_def task_doc_def)
  have n5: "oid essay_task \<noteq> ?i" by (simp add: essay_task_def task_doc_def)
  then have h5: "\<forall>x\<in>set [essay_task]. oid x \<noteq> ?i" by simp
  have st: "stored_author_email site_task = Prim (JStr ''owner@x.com'')" by code_simp
  have e1: "caller_email other_request = ''other@x.com''" by code_simp
  have e2: "caller_email shop_patch = ''owner@x.com''" by code_simp
  have e3: "caller_email empty_email_request = []" by code_simp
  have acc: "body_accepted engine shop_patch" by code_simp
  have t: "new_Date engine (body shop_patch ''deadline'') = Some 1740787200000" by code_simp
  have id: "params shop_patch ''id'' = ?i" by code_simp
  from owner_gate [OF h1 h2 h3 h4 h5, of engine 5000] st e1
  have r1: "delete_tasks_id other_request ?c
        = (reply 403 (error ''Not allowed to delete this task''), ?c)
     \<and> patch_tasks_id engine 5000 other_request ?c
        = (reply 403 (error ''Not allowed to update this task''), ?c)"
    by simp
  from owner_gate [OF h1 h2' h3 h4 h5, of engine 5000] st e2 acc t id
  have r2: "delete_tasks_id shop_patch ?c
        = (reply 200 [(''ok'', Prim (JBool True)), (''id'', Prim (JStr ?i))], idle [essay_task])
     \<and> patch_tasks_id engine 5000 shop_patch ?c
        = (reply 200 [(''ok'', Prim (JBool True)), (''id'', Prim (JStr ?i))],
           idle [essay_task,
                 site_task\<lparr>props := set_fields (task_set engine 5000 shop_patch 1740787200000)
                                       (props site_task)\<rparr>])"
    by (simp add: idle_def)
  from owner_gate [OF h1 h2'' h3 h4 h5, of engine 5000] e3
  have r3: "delete_tasks_id empty_email_request ?c = (reply 400 (error ''Email is required''), ?c)"
    by simp
  from h1 h2 h3 h4 n5 st e1 r1 e2 acc t r2 e3 r3 show ?thesis by simp
qed

text \<open>
  The statement without its conditions fails on the first sample task, whose
  author is \<^verbatim>\<open>owner@x.com\<close>. A request with the empty email, which is not the
  author's, is answered 400, not 403. A \<^verbatim>\<open>PATCH\<close> by the author with a blank
  title is answered 400, not 200, and changes nothing.
\<close>

theorem owner_gate_counterexample:
  "stored_author_email site_task = Prim (JStr ''owner@x.com'')
   \<and> Prim (JStr (caller_email empty_email_request)) \<noteq> stored_author_email site_task
   \<and> status (fst (delete_tasks_id empty_email_request (idle [site_task]))) = 400
   \<and> status (fst (delete_tasks_id empty_email_request (idle [site_task]))) \<noteq> 403
   \<and> status (fst (patch_tasks_id engine 5000 empty_email_request (idle [site_task]))) \<noteq> 403
   \<and> Prim (JStr (caller_email blank_title_patch)) = stored_author_email site_task
   \<and> status (fst (patch_tasks_id engine 5000 blank_title_patch (idle [site_task]))) = 400
   \<and> status (fst (patch_tasks_id engine 5000 blank_title_patch (idle [site_task]))) \<noteq> 200
   \<and> snd (patch_tasks_id engine 5000 blank_title_patch (idle [site_task])) = idle [site_task]"
  by code_simp

section \<open>Tasks without an author\<close>

text \<open>
  C10. Take a stored task that has no \<^verbatim>\<open>author\<close>, or whose \<^verbatim>\<open>author.email\<close> is
  the empty string, and a request with its identifier in the path. Whatever
  the email of the query string and whatever the store does, \<^verbatim>\<open>DELETE\<close> and
  \<^verbatim>\<open>PATCH\<close> never answer 200 and leave every document as it is. When the
  store answers and the email has passed the check that it is not empty, the
  answer of both is 403 and the collection is left as it is.
\<close>

theorem orphan_task_locked:
  assumes "new_ObjectId (params rq ''id'') = Some i"
    and "docs c = before @ task # after" and "oid task = i" and "\<forall>x\<in>set before. oid x \<noteq> i"
    and "get (props task) ''author'' = Prim JUndefined \<or> stored_author_email task = Prim (JStr '''')"
  shows "docs (snd (delete_tasks_id rq c)) = docs c
       \<and> status (fst (delete_tasks_id rq c)) \<noteq> 200
       \<and> docs (snd (patch_tasks_id P now rq c)) = docs c
       \<and> status (fst (patch_tasks_id P now rq c)) \<noteq> 200
       \<and> (pending c = [] \<and> caller_email rq \<noteq> [] \<longrightarrow>
            delete_tasks_id rq c = (reply 403 (error ''Not allowed to delete this task''), c)
          \<and> patch_tasks_id P now rq c = (reply 403 (error ''Not allowed to update this task''), c))"
proof -
  from assms(5) have orphan: "stored_author_email task \<noteq> Prim (JStr e)" if "e \<noteq> []" for e
    using that by (auto simp add: stored_author_email_def get_opt_def)
  from assms(2-4) have found: "find (matches (by_id i)) (docs c) = Some task"
    by (simp add: find_at matches_by_id)
  obtain r c' where del: "delete_tasks_id rq c = (r, c')" by (cases "delete_tasks_id rq c")
  from delete_tasks_id_cases [OF del] assms(1) found orphan
  have "status r \<noteq> 200 \<and> docs c' = docs c" by auto
  with del have d: "docs (snd (delete_tasks_id rq c)) = docs c
      \<and> status (fst (delete_tasks_id rq c)) \<noteq> 200" by simp
  obtain r2 c2 where pat: "patch_tasks_id P now rq c = (r2, c2)"
    by (cases "patch_tasks_id P now rq c")
  have ns: "status r2 \<noteq> 200"
  proof
    assume "status r2 = 200"
    from patch_tasks_id_success [OF pat this] assms(1) found orphan show False by auto
  qed
  from patch_tasks_id_unchanged [OF pat ns] ns pat
  have p: "docs (snd (patch_tasks_id P now rq c)) = docs c
      \<and> status (fst (patch_tasks_id P now rq c)) \<noteq> 200" by simp
  have "delete_tasks_id rq c = (reply 403 (error ''Not allowed to delete this task''), c)
          \<and> patch_tasks_id P now rq c = (reply 403 (error ''Not allowed to update this task''), c)"
    if "pending c = []" and "caller_email rq \<noteq> []"
    using delete_tasks_id_idle [OF that assms(1-4)] patch_tasks_id_idle(1) [OF that assms(1-4)]
      orphan [OF that(2)] by simp
  with d p show ?thesis by blast
qed

theorem orphan_task_locked_witness:
  "new_ObjectId (params orphan_request ''id'') = Some ''507f1f77bcf86cd799439014''
   \<and> docs (idle [site_task, orphan_task]) = [site_task] @ orphan_task # []
   \<and> oid orphan_task = ''507f1f77bcf86cd799439014''
   \<and> oid site_task \<noteq> ''507f1f77bcf86cd799439014''
   \<and> get (props orphan_task) ''author'' = Prim JUndefined
   \<and> pending (idle [site_task, orphan_task]) = []
   \<and> caller_email orphan_request = ''owner@x.com''
   \<and> body_accepted engine orphan_request
   \<and> delete_tasks_id orphan_request (idle [site_task, orphan_task])
        = (reply 403 (error ''Not allowed to delete this task''), idle [site_task, orphan_task])
   \<and> patch_tasks_id engine 5000 orphan_request (idle [site_task, orphan_task])
        = (reply 403 (error ''Not allowed to update this task''), idle [site_task, orphan_task])
   \<and> docs (snd (delete_tasks_id orphan_request
                  \<lparr>docs = [site_task, orphan_task], pending = [None, Some NetworkError]\<rparr>))
        = [site_task, orphan_task]"
proof -
  let ?c = "idle [site_task, orphan_task]"
  let ?f = "\<lparr>docs = [site_task, orphan_task], pending = [None, Some NetworkError]\<rparr>"
  let ?i = "''507f1f77bcf86cd799439014''"
  have h1: "new_ObjectId (params orphan_request ''id'') = Some ?i" by code_simp
  have h2: "docs ?c = [site_task] @ orphan_task # []" by (simp add: idle_def)
  have h2': "docs ?f = [site_task] @ orphan_task # []" by simp
  have h3: "oid orphan_task = ?i" by (simp add: orphan_task_def)
  have n4: "oid site_task \<noteq> ?i" by (simp add: site_task_def task_doc_def)
  then have h4: "\<forall>x\<in>set [site_task]. oid x \<noteq> ?i" by simp
  have a: "get (props orphan_task) ''author'' = Prim JUndefined"
    by (simp add: orphan_task_def get_Cons get_Nil)
  then have h5: "get (props orphan_task) ''author'' = Prim JUndefined
      \<or> stored_author_email orphan_task = Prim (JStr '''')" by simp
  have q: "pending ?c = []" by (simp add: idle_def)
  have e: "caller_email orphan_request = ''owner@x.com''" by code_simp
  have acc: "body_accepted engine orphan_request" by code_simp
  from orphan_task_locked [OF h1 h2 h3 h4 h5, of engine 5000] q e
  have r: "delete_tasks_id orphan_request ?c
        = (reply 403 (error ''Not allowed to delete this task''), ?c)
     \<and> patch_tasks_id engine 5000 orphan_request ?c
        = (reply 403 (error ''Not allowed to update this task''), ?c)"
    by simp
  from orphan_task_locked [OF h1 h2' h3 h4 h5, of engine 5000]
  have s: "docs (snd (delete_tasks_id orphan_request ?f)) = [site_task, orphan_task]"
    by simp
  from h1 h2 h3 n4 a q e acc r s show ?thesis by simp
qed

section \<open>\<^verbatim>\<open>POST /tasks\<close>: the budget\<close>

lemma insertOne_result:
  assumes "insertOne newid fs c = (x, c')"
  shows "(\<exists>e. x = Inl e \<and> docs c' = docs c)
       \<or> (x = Inr newid \<and> docs c' = docs c @ [\<lparr>oid = newid, props = fs\<rparr>])"
proof -
  obtain f c1 where n: "next_outcome c = (f, c1)" by (cases "next_outcome c")
  then have "docs c1 = docs c" by (rule next_outcome_docs)
  with assms n show ?thesis
    by (cases f) (auto simp add: insertOne_def split: if_splits)
qed

lemma post_tasks_budget_check:
  assumes "text_fields_accepted P rq"
  shows "post_tasks P now newid rq c =
           (if budget_rejected rq then (reply 400 (error ''Budget must be a number''), c)
            else if \<not> truthy (body rq ''userEmail'')
            then (reply 400 (error ''User email is required''), c)
            else case new_Date P (body rq ''deadline'') of
                   None \<Rightarrow> (reply 400 (error ''Deadline must be a valid date''), c)
                 | Some t \<Rightarrow>
                     (case insertOne newid
                             [(''title'', Prim (JStr (trim (String P (body rq ''title''))))),
                              (''category'', Prim (body rq ''category'')),
                              (''description'', Prim (JStr (trim (String P (body rq ''description''))))),
                              (''deadline'', BDate t),
                              (''budget'', Prim (JNum (Number (body rq ''budget'')))),
                              (''author'',
                                 Doc [(''email'', Prim (JStr (toLowerCase (String P (body rq ''userEmail''))))),
                                      (''name'', Prim (js_or (body rq ''userName'') (JStr '''')))]),
                              (''status'', Prim (JStr ''open'')),
                              (''createdAt'', BDate now),
                              (''updatedAt'', BDate now)] c of
                        (Inl e, c') \<Rightarrow> (internal_server_error, c')
                      | (Inr insertedId, c') \<Rightarrow>
                          (reply 201 [(''ok'', Prim (JBool True)), (''id'', ObjectId insertedId)], c')))"
  using assms
  by (simp add: post_tasks_def text_fields_accepted_def budget_rejected_def Let_def
      split: option.splits)

lemma post_tasks_created:
  assumes "post_tasks P now newid rq c = (r, c')" and "status r = 201"
  shows "\<exists>d. docs c' = docs c @ [d] \<and> oid d = newid
           \<and> get (props d) ''budget'' = Prim (JNum (Number (body rq ''budget'')))"
proof -
  from assms have acc: "text_fields_accepted P rq"
    by (auto simp add: post_tasks_def text_fields_accepted_def Let_def reply_def split: if_splits)
  from assms post_tasks_budget_check [OF acc, of now newid c]
  have nb: "\<not> budget_rejected rq" and ue: "truthy (body rq ''userEmail'')"
    by (auto simp add: reply_def split: if_splits)
  from assms post_tasks_budget_check [OF acc, of now newid c] nb ue
  obtain t where t: "new_Date P (body rq ''deadline'') = Some t"
    by (cases "new_Date P (body rq ''deadline'')") (auto simp add: reply_def)
  let ?doc = "[(''title'', Prim (JStr (trim (String P (body rq ''title''))))),
                              (''category'', Prim (body rq ''category'')),
                              (''description'', Prim (JStr (trim (String P (body rq ''description''))))),
                              (''deadline'', BDate t),
                              (''budget'', Prim (JNum (Number (body rq ''budget'')))),
                              (''author'',
                                 Doc [(''email'', Prim (JStr (toLowerCase (String P (body rq ''userEmail''))))),
                                      (''name'', Prim (js_or (body rq ''userName'') (JStr '''')))]),
                              (''status'', Prim (JStr ''open'')),
                              (''createdAt'', BDate now),
                              (''updatedAt'', BDate now)]"
  obtain x c1 where ins: "insertOne newid ?doc c = (x, c1)" by (cases "insertOne newid ?doc c")
  from assms post_tasks_budget_check [OF acc, of now newid c] nb ue t ins
  have "x = Inr newid \<and> c' = c1"
    using insertOne_result [OF ins]
    by (cases x) (auto simp add: reply_def internal_server_error_def)
  with insertOne_result [OF ins] have "docs c' = docs c @ [\<lparr>oid = newid, props = ?doc\<rparr>]"
    by auto
  moreover have "get (props \<lparr>oid = newid, props = ?doc\<rparr>) ''budget''
                   = Prim (JNum (Number (body rq ''budget'')))"
    by (simp add: get_Cons)
  ultimately show ?thesis by (intro exI [of _ "\<lparr>oid = newid, props = ?doc\<rparr>"]) simp
qed

text \<open>
  C2, as the code has it. When title, category, description and deadline
  pass the checks that come first, \<^verbatim>\<open>POST /tasks\<close> answers 400 with
  \<^verbatim>\<open>Budget must be a number\<close>, and stores nothing, if and only if the budget is
  \<^verbatim>\<open>undefined\<close>, \<^verbatim>\<open>null\<close> or coerced by \<^verbatim>\<open>Number\<close> to \<^verbatim>\<open>NaN\<close>; when moreover the
  user email is there and the deadline is a date, the answer has status 400
  if and only if the budget is such. A string is rejected exactly when it
  reads as \<^verbatim>\<open>NaN\<close>. Whenever the answer is 201, one document has been added,
  and its budget is the number that \<^verbatim>\<open>Number\<close> coerces the given one to.
\<close>

theorem post_tasks_budget:
  "(text_fields_accepted P rq \<longrightarrow>
      (post_tasks P now newid rq c = (reply 400 (error ''Budget must be a number''), c)
         \<longleftrightarrow> body rq ''budget'' = JUndefined \<or> body rq ''budget'' = JNull
              \<or> isNaN (Number (body rq ''budget''))))
   \<and> (text_fields_accepted P rq \<and> truthy (body rq ''userEmail'')
        \<and> new_Date P (body rq ''deadline'') \<noteq> None \<longrightarrow>
      (status (fst (post_tasks P now newid rq c)) = 400
         \<longleftrightarrow> body rq ''budget'' = JUndefined \<or> body rq ''budget'' = JNull
              \<or> isNaN (Number (body rq ''budget''))))
   \<and> (\<forall>s. body rq ''budget'' = JStr s \<longrightarrow>
          (budget_rejected rq \<longleftrightarrow> StringToNumber s = NaN))
   \<and> (status (fst (post_tasks P now newid rq c)) = 201 \<longrightarrow>
        (\<exists>d. docs (snd (post_tasks P now newid rq c)) = docs c @ [d] \<and> oid d = newid
            \<and> get (props d) ''budget'' = Prim (JNum (Number (body rq ''budget'')))))"
proof -
  have one: "post_tasks P now newid rq c = (reply 400 (error ''Budget must be a number''), c)
         \<longleftrightarrow> body rq ''budget'' = JUndefined \<or> body rq ''budget'' = JNull
              \<or> isNaN (Number (body rq ''budget''))"
    if acc: "text_fields_accepted P rq"
  proof (cases "budget_rejected rq")
    case True
    with post_tasks_budget_check [OF acc, of now newid c] show ?thesis
      by (simp add: budget_rejected_def)
  next
    case False
    have "fst (post_tasks P now newid rq c) \<noteq> reply 400 (error ''Budget must be a number'')"
      using post_tasks_budget_check [OF acc, of now newid c] False
      by (auto simp add: reply_def error_def internal_server_error_def
          split: option.splits sum.splits prod.splits)
    with False show ?thesis
      by (auto simp add: budget_rejected_def)
  qed
  have two: "status (fst (post_tasks P now newid rq c)) = 400
         \<longleftrightarrow> body rq ''budget'' = JUndefined \<or> body rq ''budget'' = JNull
              \<or> isNaN (Number (body rq ''budget''))"
    if acc: "text_fields_accepted P rq" and ue: "truthy (body rq ''userEmail'')"
      and dl: "new_Date P (body rq ''deadline'') \<noteq> None"
  proof (cases "budget_rejected rq")
    case True
    with post_tasks_budget_check [OF acc, of now newid c] show ?thesis
      by (simp add: budget_rejected_def reply_def)
  next
    case False
    have "status (fst (post_tasks P now newid rq c)) \<noteq> 400"
      using post_tasks_budget_check [OF acc, of now newid c] False ue dl
      by (auto simp add: reply_def internal_server_error_def
          split: option.splits sum.splits prod.splits)
    with False show ?thesis
      by (auto simp add: budget_rejected_def)
  qed
  have three: "\<forall>s. body rq ''budget'' = JStr s \<longrightarrow> (budget_rejected rq \<longleftrightarrow> StringToNumber s = NaN)"
    by (simp add: budget_rejected_def isNaN_def)
  have four: "\<exists>d. docs (snd (post_tasks P now newid rq c)) = docs c @ [d] \<and> oid d = newid
            \<and> get (props d) ''budget'' = Prim (JNum (Number (body rq ''budget'')))"
    if "status (fst (post_tasks P now newid rq c)) = 201"
    using post_tasks_created [of P now newid rq c "fst (post_tasks P now newid rq c)"
        "snd (post_tasks P now newid rq c)"] that by simp
  from one two three four show ?thesis by blast
qed

theorem post_tasks_budget_witness:
  "text_fields_accepted engine priced_task
   \<and> truthy (body priced_task ''userEmail'')
   \<and> new_Date engine (body priced_task ''deadline'') = Some 1740787200000
   \<and> Number (body priced_task ''budget'') = Fin (301 / 2)
   \<and> status (fst (post_tasks engine 1000 ''507f1f77bcf86cd799439011'' priced_task (idle []))) = 201
   \<and> (\<exists>d. docs (snd (post_tasks engine 1000 ''507f1f77bcf86cd799439011'' priced_task (idle [])))
              = [d]
          \<and> oid d = ''507f1f77bcf86cd799439011''
          \<and> get (props d) ''budget'' = Prim (JNum (Fin (301 / 2))))
   \<and> text_fields_accepted engine unpriced_task
   \<and> body unpriced_task ''budget'' = JStr ''abc''
   \<and> StringToNumber ''abc'' = NaN
   \<and> post_tasks engine 1000 ''507f1f77bcf86cd799439011'' unpriced_task (idle [])
        = (reply 400 (error ''Budget must be a number''), idle [])"
proof -
  let ?i = "''507f1f77bcf86cd799439011''"
  have a1: "text_fields_accepted engine priced_task" by code_simp
  have a2: "truthy (body priced_task ''userEmail'')" by code_simp
  have a3: "new_Date engine (body priced_task ''deadline'') = Some 1740787200000" by code_simp
  have a4: "Number (body priced_task ''budget'') = Fin (301 / 2)" by code_simp
  have a5: "status (fst (post_tasks engine 1000 ?i priced_task (idle []))) = 201" by code_simp
  have b1: "text_fields_accepted engine unpriced_task" by code_simp
  have b2: "body unpriced_task ''budget'' = JStr ''abc''" by code_simp
  have b3: "StringToNumber ''abc'' = NaN" by code_simp
  from post_tasks_budget [of engine priced_task 1000 ?i "idle []"] a5 a4
  have stored: "\<exists>d. docs (snd (post_tasks engine 1000 ?i priced_task (idle []))) = [d]
          \<and> oid d = ?i \<and> get (props d) ''budget'' = Prim (JNum (Fin (301 / 2)))"
    by (simp add: idle_def)
  from post_tasks_budget [of engine unpriced_task 1000 ?i "idle []"] b1 b2 b3
  have refused: "post_tasks engine 1000 ?i unpriced_task (idle [])
        = (reply 400 (error ''Budget must be a number''), idle [])"
    by (simp add: isNaN_def)
  from a1 a2 a3 a4 a5 stored b1 b2 b3 refused show ?thesis by blast
qed

text \<open>
  The statement with "a finite number" and without the condition on the
  other fields fails. The budget \<^verbatim>\<open>"Infinity"\<close> is coerced to no finite number,
  and the request is answered 201 and stored with the budget \<^verbatim>\<open>Infinity\<close>. A
  request with the budget 150 and no title is answered 400.
\<close>

theorem post_tasks_budget_counterexample:
  "\<not> coercible_to_finite (body infinite_budget_task ''budget'')
   \<and> Number (body infinite_budget_task ''budget'') = PInf
   \<and> status (fst (post_tasks engine 1000 ''507f1f77bcf86cd799439011'' infinite_budget_task (idle [])))
       = 201
   \<and> get (props (hd (docs (snd (post_tasks engine 1000 ''507f1f77bcf86cd799439011''
                                    infinite_budget_task (idle [])))))) ''budget''
       = Prim (JNum PInf)
   \<and> coercible_to_finite (body untitled_task ''budget'')
   \<and> status (fst (post_tasks engine 1000 ''507f1f77bcf86cd799439011'' untitled_task (idle [])))
       = 400"
  by code_simp

section \<open>Malformed identifiers and failures of the store\<close>

text \<open>A malformed identifier in the path is answered 400 by the three handlers.\<close>

lemma malformed_id_400:
  assumes "new_ObjectId (params rq ''id'') = None"
  shows "status (fst (get_tasks_id rq c)) = 400"
    and "status (fst (delete_tasks_id rq c)) = 400"
    and "status (fst (patch_tasks_id P now rq c)) = 400"
  using assms
  by (simp_all add: get_tasks_id_def delete_tasks_id_def patch_tasks_id_def reply_def Let_def)

lemma next_outcome_failing: "pending c = Some e # rest \<Longrightarrow> next_outcome c = (Some e, c\<lparr>pending := rest\<rparr>)"
  by (simp add: next_outcome_def)

lemma findOne_failing:
  "pending c = Some e # rest \<Longrightarrow> findOne q c = (Inl e, c\<lparr>pending := rest\<rparr>)"
  by (simp add: findOne_def next_outcome_failing)

text \<open>
  C8. The identifier of the path is well formed and the store fails at
  \<^verbatim>\<open>findOne\<close>. \<^verbatim>\<open>GET /tasks/:id\<close> answers 400 with \<^verbatim>\<open>Invalid task id\<close>, where
  \<^verbatim>\<open>DELETE\<close> and \<^verbatim>\<open>PATCH\<close>, given an email, answer the same failure with 500
  and \<^verbatim>\<open>Internal server error\<close>.
\<close>

theorem get_tasks_id_store_failure:
  assumes "new_ObjectId (params rq ''id'') = Some i" and "pending c = Some e # rest"
  shows "get_tasks_id rq c = (reply 400 (error ''Invalid task id''), c\<lparr>pending := rest\<rparr>)
       \<and> (caller_email rq \<noteq> [] \<longrightarrow>
            delete_tasks_id rq c = (internal_server_error, c\<lparr>pending := rest\<rparr>)
          \<and> patch_tasks_id P now rq c = (internal_server_error, c\<lparr>pending := rest\<rparr>))"
  using assms
  by (simp add: get_tasks_id_def delete_tasks_id_def patch_tasks_id_def caller_email_def
      findOne_failing Let_def)

theorem get_tasks_id_store_failure_witness:
  "new_ObjectId (params shop_patch ''id'') = Some ''507f1f77bcf86cd799439011''
   \<and> pending (failing [site_task]) = Some NetworkError # []
   \<and> caller_email shop_patch = ''owner@x.com''
   \<and> get_tasks_id shop_patch (failing [site_task])
       = (reply 400 (error ''Invalid task id''), idle [site_task])
   \<and> delete_tasks_id shop_patch (failing [site_task]) = (internal_server_error, idle [site_task])
   \<and> patch_tasks_id engine 5000 shop_patch (failing [site_task])
       = (internal_server_error, idle [site_task])"
proof -
  have h1: "new_ObjectId (params shop_patch ''id'') = Some ''507f1f77bcf86cd799439011''"
    by code_simp
  have h2: "pending (failing [site_task]) = Some NetworkError # []"
    by (simp add: failing_def)
  have e: "caller_email shop_patch = ''owner@x.com''" by code_simp
  have after: "(failing [site_task])\<lparr>pending := []\<rparr> = idle [site_task]"
    by (simp add: failing_def idle_def)
  from get_tasks_id_store_failure [OF h1 h2, of engine 5000] e after
  have "get_tasks_id shop_patch (failing [site_task])
       = (reply 400 (error ''Invalid task id''), idle [site_task])
   \<and> delete_tasks_id shop_patch (failing [site_task]) = (internal_server_error, idle [site_task])
   \<and> patch_tasks_id engine 5000 shop_patch (failing [site_task])
       = (internal_server_error, idle [site_task])"
    by simp
  with h1 h2 e show ?thesis by blast
qed

end
